theory Spec2Isabelle
  imports Complex_Main
begin

section \<open>Python values and strings\<close>

text \<open>
  Python \<^verbatim>\<open>str\<close> values are modelled as \<^typ>\<open>string\<close>, one \<^typ>\<open>char\<close> per code point,
  restricted to the code points below 256 (Latin-1).  Dynamically typed values (JSON bodies,
  answers, URLs handed back by the server) are values of \<open>pyval\<close>.  A Python \<^verbatim>\<open>float\<close> is an
  IEEE 754 double: \<open>Finite neg m\<close> is the double of magnitude \<open>m\<close>, negative when \<open>neg\<close> holds (so
  there are two zeros), \<open>Infinite neg\<close> is an infinity and \<open>NaN\<close> is not a number.  A \<open>PDict\<close>
  lists the items of a dictionary, keys distinct.
\<close>

datatype pyfloat = Finite bool rat | Infinite bool | NaN

datatype pyval =
    PNone
  | PBool bool
  | PInt int
  | PFloat pyfloat
  | PStr string
  | PList "pyval list"
  | PDict "(string \<times> pyval) list"

text \<open>Truth value testing, as \<^verbatim>\<open>if x:\<close> does it.\<close>

fun truthy :: "pyval \<Rightarrow> bool" where
  "truthy PNone = False"
| "truthy (PBool b) = b"
| "truthy (PInt i) = (i \<noteq> 0)"
| "truthy (PFloat x) = (case x of Finite neg m \<Rightarrow> m \<noteq> 0 | Infinite neg \<Rightarrow> True | NaN \<Rightarrow> True)"
| "truthy (PStr s) = (s \<noteq> [])"
| "truthy (PList xs) = (xs \<noteq> [])"
| "truthy (PDict kvs) = (kvs \<noteq> [])"

text \<open>\<^verbatim>\<open>d.get(k, default)\<close> on the items of a dictionary.\<close>

definition dict_get :: "(string \<times> pyval) list \<Rightarrow> string \<Rightarrow> pyval \<Rightarrow> pyval" where
  "dict_get d k dflt = (case map_of d k of None \<Rightarrow> dflt | Some v \<Rightarrow> v)"

text \<open>\<^verbatim>\<open>s.startswith(p)\<close>, \<^verbatim>\<open>s.endswith(p)\<close> and the substring test \<^verbatim>\<open>n in s\<close>.\<close>

fun startswith :: "string \<Rightarrow> string \<Rightarrow> bool" where
  "startswith s [] = True"
| "startswith [] (p # ps) = False"
| "startswith (c # cs) (p # ps) = (c = p \<and> startswith cs ps)"

definition endswith :: "string \<Rightarrow> string \<Rightarrow> bool" where
  "endswith s p = startswith (rev s) (rev p)"

fun py_in :: "string \<Rightarrow> string \<Rightarrow> bool" where
  "py_in n [] = (n = [])"
| "py_in n (c # cs) = (startswith (c # cs) n \<or> py_in n cs)"

text \<open>\<^verbatim>\<open>str.isspace\<close> on one character; the regular-expression class \<^verbatim>\<open>\s\<close> is the same set.\<close>

definition isspace :: "char \<Rightarrow> bool" where
  "isspace c = (c \<in> set [CHR 0x09, CHR 0x0A, CHR 0x0B, CHR 0x0C, CHR 0x0D, CHR 0x1C,
                          CHR 0x1D, CHR 0x1E, CHR 0x1F, CHR 0x20, CHR 0x85, CHR 0xA0])"

text \<open>The regular-expression class \<^verbatim>\<open>\d\<close>.\<close>

definition isdigit :: "char \<Rightarrow> bool" where
  "isdigit c = (c \<in> set ''0123456789'')"

text \<open>\<^verbatim>\<open>str.strip()\<close>.\<close>

definition strip :: "string \<Rightarrow> string" where
  "strip s = rev (dropWhile isspace (rev (dropWhile isspace s)))"

text \<open>\<^verbatim>\<open>str.lower()\<close>: the upper-case letters of Latin-1 and their lower-case forms.\<close>

definition uppers :: string where
  "uppers = ''ABCDEFGHIJKLMNOPQRSTUVWXYZ'' @
     [CHR 0xC0, CHR 0xC1, CHR 0xC2, CHR 0xC3, CHR 0xC4, CHR 0xC5, CHR 0xC6, CHR 0xC7,
      CHR 0xC8, CHR 0xC9, CHR 0xCA, CHR 0xCB, CHR 0xCC, CHR 0xCD, CHR 0xCE, CHR 0xCF,
      CHR 0xD0, CHR 0xD1, CHR 0xD2, CHR 0xD3, CHR 0xD4, CHR 0xD5, CHR 0xD6,
      CHR 0xD8, CHR 0xD9, CHR 0xDA, CHR 0xDB, CHR 0xDC, CHR 0xDD, CHR 0xDE]"

definition lowers :: string where
  "lowers = ''abcdefghijklmnopqrstuvwxyz'' @
     [CHR 0xE0, CHR 0xE1, CHR 0xE2, CHR 0xE3, CHR 0xE4, CHR 0xE5, CHR 0xE6, CHR 0xE7,
      CHR 0xE8, CHR 0xE9, CHR 0xEA, CHR 0xEB, CHR 0xEC, CHR 0xED, CHR 0xEE, CHR 0xEF,
      CHR 0xF0, CHR 0xF1, CHR 0xF2, CHR 0xF3, CHR 0xF4, CHR 0xF5, CHR 0xF6,
      CHR 0xF8, CHR 0xF9, CHR 0xFA, CHR 0xFB, CHR 0xFC, CHR 0xFD, CHR 0xFE]"

definition lower_char :: "char \<Rightarrow> char" where
  "lower_char c = (case map_of (zip uppers lowers) c of None \<Rightarrow> c | Some d \<Rightarrow> d)"

definition lower :: "string \<Rightarrow> string" where
  "lower s = map lower_char s"

section \<open>Question classifier\<close>

datatype kind = File_download | Api_fetch | Pdf_analysis | Data_analysis | Visualization | General

text \<open>
  The dictionary \<^verbatim>\<open>info\<close>; its keys \<^verbatim>\<open>'text'\<close>, \<^verbatim>\<open>'html'\<close>, \<^verbatim>\<open>'type'\<close>, \<^verbatim>\<open>'submit_url'\<close> and
  \<^verbatim>\<open>'data_urls'\<close> are the fields \<open>qtext\<close>, \<open>qhtml\<close>, \<open>qtype\<close>, \<open>qsubmit_url\<close> and \<open>qdata_urls\<close>.
\<close>

record question_info =
  qtext :: string
  qhtml :: string
  qtype :: kind
  qsubmit_url :: "string option"
  qdata_urls :: "string list"

text \<open>
  The character class \<^verbatim>\<open>[^\s<>"'\)]\<close> of the URL patterns.
\<close>

definition url_char :: "char \<Rightarrow> bool" where
  "url_char c = (\<not> isspace c \<and> c \<notin> set [CHR ''<'', CHR ''>'', CHR 0x22, CHR 0x27, CHR '')''])"

text \<open>
  The scheme \<^verbatim>\<open>https?://\<close> at the head of a string: the rest of the string after it.
\<close>

definition match_scheme :: "string \<Rightarrow> (string \<times> string) option" where
  "match_scheme s =
     (if startswith s ''https://'' then Some (''https://'', drop 8 s)
      else if startswith s ''http://'' then Some (''http://'', drop 7 s)
      else None)"

text \<open>
  \<^verbatim>\<open>https?://[^\s<>"'\)]+/submit[^\s<>"'\)]*\<close> tried at the head of a string.  The class
  contains every character of \<^verbatim>\<open>/submit\<close>, so the greedy run takes the whole stretch of class
  characters and backtracks inside it: there is a match exactly when \<^verbatim>\<open>/submit\<close> occurs in the
  stretch after at least one character, and the match is then the scheme and the whole stretch.
\<close>

definition match_submit_at :: "string \<Rightarrow> string option" where
  "match_submit_at s =
     (case match_scheme s of
        None \<Rightarrow> None
      | Some (scheme, rest) \<Rightarrow>
          (let run = takeWhile url_char rest
           in if run \<noteq> [] \<and> py_in ''/submit'' (tl run) then Some (scheme @ run) else None))"

text \<open>The leftmost match, which is \<^verbatim>\<open>re.findall(...)[0]\<close> when there is one.\<close>

fun search_submit :: "string \<Rightarrow> string option" where
  "search_submit [] = None"
| "search_submit (c # cs) =
     (case match_submit_at (c # cs) of Some m \<Rightarrow> Some m | None \<Rightarrow> search_submit cs)"

definition extract_submit_url :: "string \<Rightarrow> string option" where
  "extract_submit_url html_content =
     (case search_submit html_content of
        Some m \<Rightarrow> Some m
      | None \<Rightarrow> (case search_submit html_content of Some m \<Rightarrow> Some m | None \<Rightarrow> None))"

text \<open>
  \<^verbatim>\<open>re.findall(r'https?://[^\s<>"\'\)]+', text)\<close>: the matches from left to right, the scan
  resuming after each match.
\<close>

definition match_url_at :: "string \<Rightarrow> string option" where
  "match_url_at s =
     (case match_scheme s of
        None \<Rightarrow> None
      | Some (scheme, rest) \<Rightarrow>
          (let run = takeWhile url_char rest
           in if run \<noteq> [] then Some (scheme @ run) else None))"

fun findall_urls :: "string \<Rightarrow> string list" where
  "findall_urls [] = []"
| "findall_urls (c # cs) =
     (case match_url_at (c # cs) of
        Some m \<Rightarrow> m # findall_urls (drop (length m - 1) cs)
      | None \<Rightarrow> findall_urls cs)"

text \<open>The chain of tests that sets \<^verbatim>\<open>info['type']\<close>.\<close>

definition question_type :: "string \<Rightarrow> kind" where
  "question_type text_content =
     (let text_lower = lower text_content in
      if py_in ''download'' text_lower \<or> py_in ''file'' text_lower then File_download
      else if py_in ''api'' text_lower \<or> py_in ''endpoint'' text_lower then Api_fetch
      else if py_in ''sum'' text_lower \<or> py_in ''calculate'' text_lower \<or> py_in ''table'' text_lower
        then Data_analysis
      else if py_in ''visualize'' text_lower \<or> py_in ''chart'' text_lower \<or> py_in ''plot'' text_lower
        then Visualization
      else if py_in ''pdf'' text_lower then Pdf_analysis
      else General)"

definition extract_question_info :: "string \<Rightarrow> string \<Rightarrow> question_info" where
  "extract_question_info text_content html_content =
     \<lparr> qtext = text_content,
       qhtml = html_content,
       qtype = question_type text_content,
       qsubmit_url = extract_submit_url html_content,
       qdata_urls = findall_urls text_content \<rparr>"

text \<open>
  The classification rule in the words of the specification: an ordered list of keyword
  groups, the first group with a keyword in the lower-cased text decides, \<open>General\<close> otherwise.
\<close>

definition kind_rules :: "(string list \<times> kind) list" where
  "kind_rules =
     [([''download'', ''file''], File_download),
      ([''api'', ''endpoint''], Api_fetch),
      ([''sum'', ''calculate'', ''table''], Data_analysis),
      ([''visualize'', ''chart'', ''plot''], Visualization),
      ([''pdf''], Pdf_analysis)]"

fun first_match :: "(string list \<times> kind) list \<Rightarrow> string \<Rightarrow> kind" where
  "first_match [] t = General"
| "first_match ((kws, k) # rules) t =
     (if list_ex (\<lambda>kw. py_in kw t) kws then k else first_match rules t)"

definition classify_spec :: "string \<Rightarrow> kind" where
  "classify_spec text_content = first_match kind_rules (lower text_content)"

section \<open>Answer coercion\<close>

text \<open>
  \<^verbatim>\<open>-?\d+\.?\d*\<close> tried at the head of a string.  A minus sign that no digit follows is given
  back, and then \<^verbatim>\<open>\d+\<close> fails on it; after the first digits every remaining part may be empty,
  so nothing else backtracks.
\<close>

definition match_number_at :: "string \<Rightarrow> string option" where
  "match_number_at s =
     (let sign = (if startswith s ''-'' then ''-'' else '''');
          s1 = drop (length sign) s;
          ds = takeWhile isdigit s1;
          s2 = dropWhile isdigit s1;
          dot = (if startswith s2 ''.'' then ''.'' else '''');
          s3 = drop (length dot) s2;
          fs = takeWhile isdigit s3
      in if ds = [] then None else Some (sign @ ds @ dot @ fs))"

fun search_number :: "string \<Rightarrow> string option" where
  "search_number [] = None"
| "search_number (c # cs) =
     (case match_number_at (c # cs) of Some m \<Rightarrow> Some m | None \<Rightarrow> search_number cs)"

text \<open>The value of a string of decimal digits.\<close>

definition digit_val :: "char \<Rightarrow> nat" where
  "digit_val c = (case map_of (zip ''0123456789'' [0, 1, 2, 3, 4, 5, 6, 7, 8, 9]) c of
                    None \<Rightarrow> 0 | Some d \<Rightarrow> d)"

definition digits_val :: "string \<Rightarrow> nat" where
  "digits_val ds = foldl (\<lambda>a c. 10 * a + digit_val c) 0 ds"

text \<open>
  \<^verbatim>\<open>int(num_str)\<close> on a token of the pattern above.  CPython refuses to convert a string of
  more than \<^verbatim>\<open>sys.get_int_max_str_digits()\<close> digits, 4300 unless configured otherwise, and raises
  \<^verbatim>\<open>ValueError\<close>: that is the result \<open>None\<close>.  The sign is not counted, leading zeros are.
\<close>

definition INT_MAX_STR_DIGITS :: nat where
  "INT_MAX_STR_DIGITS = 4300"

definition int_of_token :: "string \<Rightarrow> int option" where
  "int_of_token num_str =
     (let neg = startswith num_str ''-'';
          ds = (if neg then tl num_str else num_str)
      in if INT_MAX_STR_DIGITS < length ds then None
         else Some (if neg then - int (digits_val ds) else int (digits_val ds)))"

text \<open>
  The double nearest to a rational, as \<^verbatim>\<open>float\<close> reads a decimal: round to nearest, ties to the
  even significand, on the grid of 53-bit significands with exponents from \<open>- 1022\<close> (below
  which the grid of the subnormal numbers stays at \<open>2 ^ - 1074\<close>), and infinity from \<open>2 ^ 1024\<close>.
  \<open>bit_length n\<close> is the number of binary digits of \<open>n\<close>, \<open>pow2 e\<close> is \<open>2 ^ e\<close> for an integer \<open>e\<close>,
  and \<open>floor_log2 q\<close> is the \<open>e\<close> with \<open>2 ^ e \<le> q < 2 ^ (e + 1)\<close> for a positive \<open>q\<close>.
\<close>

fun bit_length :: "nat \<Rightarrow> nat" where
  "bit_length n = (if n = 0 then 0 else Suc (bit_length (n div 2)))"

declare bit_length.simps [simp del]

definition pow2 :: "int \<Rightarrow> rat" where
  "pow2 e = (if 0 \<le> e then 2 ^ nat e else 1 / 2 ^ nat (- e))"

definition floor_log2 :: "rat \<Rightarrow> int" where
  "floor_log2 q =
     (case quotient_of q of (a, b) \<Rightarrow>
        (let e0 = int (bit_length (nat a)) - int (bit_length (nat b))
         in if pow2 e0 \<le> q then e0 else e0 - 1))"

definition round_half_even :: "rat \<Rightarrow> int" where
  "round_half_even x =
     (let f = \<lfloor>x\<rfloor>; d = x - of_int f
      in if d < 1 / 2 then f else if 1 / 2 < d then f + 1 else if even f then f else f + 1)"

definition double_of_magnitude :: "rat \<Rightarrow> rat option" where
  "double_of_magnitude q =
     (if q = 0 then Some 0
      else
        (let e = max (floor_log2 q) (- 1022);
             ulp = pow2 (e - 52);
             r = of_int (round_half_even (q / ulp)) * ulp
         in if pow2 1024 \<le> r then None else Some r))"

definition to_double :: "bool \<Rightarrow> rat \<Rightarrow> pyfloat" where
  "to_double neg q =
     (case double_of_magnitude q of Some r \<Rightarrow> Finite neg r | None \<Rightarrow> Infinite neg)"

text \<open>
  \<^verbatim>\<open>float(num_str)\<close> on a token of the pattern above with a decimal point in it: the double
  nearest to the decimal number the token writes.  It does not raise on such a token.
\<close>

definition float_of_token :: "string \<Rightarrow> pyfloat" where
  "float_of_token num_str =
     (let neg = startswith num_str ''-'';
          body = (if neg then tl num_str else num_str);
          ds = takeWhile isdigit body;
          fs = drop (Suc (length ds)) body
      in to_double neg
           (of_nat (digits_val ds) + of_nat (digits_val fs) / of_nat (10 ^ length fs)))"

text \<open>
  \<^verbatim>\<open>_extract_answer\<close>.  When the conversion raises, the bare \<^verbatim>\<open>except: pass\<close> swallows the
  exception and the function goes on to return the stripped response.
\<close>

definition extract_answer :: "string \<Rightarrow> pyval" where
  "extract_answer llm_response =
     (case search_number llm_response of
        Some num_str \<Rightarrow>
          (if CHR ''.'' \<in> set num_str then PFloat (float_of_token num_str)
           else
             (case int_of_token num_str of
                Some i \<Rightarrow> PInt i
              | None \<Rightarrow> PStr (strip llm_response)))
      | None \<Rightarrow> PStr (strip llm_response))"

text \<open>
  The condition under which no earlier token starts inside the text \<open>pre\<close> before a token
  with the sign \<open>sign\<close>: no digit there, and no minus sign directly in front of an unsigned
  token.
\<close>

definition no_earlier_match :: "string \<Rightarrow> string \<Rightarrow> bool" where
  "no_earlier_match pre sign \<longleftrightarrow>
     (\<forall>c\<in>set pre. \<not> isdigit c) \<and> (sign = [] \<longrightarrow> pre = [] \<or> last pre \<noteq> CHR ''-'')"

section \<open>Collaborators\<close>

text \<open>
  An exception is represented by its message \<^verbatim>\<open>str(e)\<close>.  A call that may raise returns
  \<open>Inl\<close> of the exception or \<open>Inr\<close> of its value.  The exceptions are those of class
  \<^verbatim>\<open>Exception\<close>, which the \<^verbatim>\<open>except Exception\<close> clauses of the source catch; the cancellation of
  the task and the exit of the interpreter are not modelled.
\<close>

datatype exn = Exception string

text \<open>
  The world outside the solver: the clock, the browser, the language model and the HTTP
  endpoints.  Every call that reaches the outside is numbered by a counter of such calls (a
  \<^emph>\<open>tick\<close>), which each of them advances by one, and an oracle answers by the tick and the
  arguments of the call; so the same call may be answered differently at different moments.
  Library functions without effect (parsers, data-frame operations) are oracles without a tick.
  Data frames are values of an unspecified type \<open>'df\<close>.  The context dictionary handed to the
  language model is represented by its entry \<^verbatim>\<open>'data'\<close>, the only one of those the solver sets that
  the prompt is built from; accordingly \<open>parse_pdf\<close> gives the entry \<^verbatim>\<open>'text'\<close> of its result.

  \<open>now env t\<close> is the reading of \<^verbatim>\<open>datetime.now()\<close> in microseconds.  \<open>client_post\<close> is
  \<^verbatim>\<open>client.post(submit_url, json=payload)\<close>: it raises, or gives the status code together with
  the outcome of \<^verbatim>\<open>response.json()\<close>, which raises on a body that is not JSON.
\<close>

record payload =
  payload_email :: string
  payload_secret :: string
  payload_url :: pyval
  payload_answer :: pyval

record 'df env =
  now :: "nat \<Rightarrow> int"
  browser_start :: "nat \<Rightarrow> exn option"
  browser_navigate :: "nat \<Rightarrow> pyval \<Rightarrow> exn + string"
  browser_extract_text :: "nat \<Rightarrow> pyval \<Rightarrow> exn + string"
  llm_solve_question :: "nat \<Rightarrow> string \<Rightarrow> string option \<Rightarrow> exn + string"
  download_file :: "nat \<Rightarrow> string \<Rightarrow> exn + string"
  fetch_api_data :: "nat \<Rightarrow> string \<Rightarrow> exn + pyval"
  client_post :: "nat \<Rightarrow> string \<Rightarrow> payload \<Rightarrow> exn + (int \<times> (exn + pyval))"
  parse_pdf :: "string \<Rightarrow> exn + string"
  decode_utf8 :: "string \<Rightarrow> exn + string"
  parse_csv :: "string \<Rightarrow> exn + 'df"
  parse_json :: "string \<Rightarrow> exn + pyval"
  json_dumps :: "pyval \<Rightarrow> exn + string"
  py_str :: "pyval \<Rightarrow> string"
  extract_tables_from_html :: "string \<Rightarrow> 'df list"
  pd_concat :: "'df list \<Rightarrow> exn + 'df"
  df_has_column :: "'df \<Rightarrow> string \<Rightarrow> bool"
  df_column_sum :: "'df \<Rightarrow> string \<Rightarrow> exn + pyval"
  df_total_sum :: "'df \<Rightarrow> exn + pyval"
  df_column_mean :: "'df \<Rightarrow> string \<Rightarrow> exn + pyval"
  df_total_mean :: "'df \<Rightarrow> exn + pyval"
  df_len :: "'df \<Rightarrow> int"
  df_column_max :: "'df \<Rightarrow> string \<Rightarrow> exn + pyval"
  df_summary :: "'df \<Rightarrow> exn + string"

text \<open>The fields of \<^verbatim>\<open>QuizSolver\<close> that the requests carry.\<close>

record quiz_solver =
  email :: string
  secret :: string

text \<open>\<^verbatim>\<open>Config.MAX_QUIZ_TIME_SECONDS\<close> and \<^verbatim>\<open>self.max_time\<close>, the latter in microseconds.\<close>

definition MAX_QUIZ_TIME_SECONDS :: int where
  "MAX_QUIZ_TIME_SECONDS = 180"

definition max_time :: int where
  "max_time = 1000000 * MAX_QUIZ_TIME_SECONDS"

section \<open>Answer producer\<close>

text \<open>\<^verbatim>\<open>_solve_general_question\<close>: one call of the language model, then the coercion.\<close>

definition solve_general_question ::
  "'df env \<Rightarrow> nat \<Rightarrow> question_info \<Rightarrow> (exn + pyval) \<times> nat" where
  "solve_general_question env t question_info =
     (case llm_solve_question env t (qtext question_info) None of
        Inl e \<Rightarrow> (Inl e, Suc t)
      | Inr answer \<Rightarrow> (Inr (extract_answer answer), Suc t))"

text \<open>
  \<^verbatim>\<open>re.search(r'"([^"]+)"', question_text)\<close> and its group 1: the leftmost double quote that a
  non-empty run without double quotes and a closing double quote follow.
\<close>

fun search_quoted :: "string \<Rightarrow> string option" where
  "search_quoted [] = None"
| "search_quoted (c # cs) =
     (if c = CHR 0x22 \<and> takeWhile (\<lambda>x. x \<noteq> CHR 0x22) cs \<noteq> [] \<and> dropWhile (\<lambda>x. x \<noteq> CHR 0x22) cs \<noteq> []
      then Some (takeWhile (\<lambda>x. x \<noteq> CHR 0x22) cs)
      else search_quoted cs)"

text \<open>
  \<^verbatim>\<open>_analyze_dataframe_question\<close>.  The aggregations raise what pandas or \<^verbatim>\<open>float\<close> raise.
\<close>

definition column_of :: "'df env \<Rightarrow> 'df \<Rightarrow> string \<Rightarrow> string option" where
  "column_of env df question_text =
     (case search_quoted question_text of
        None \<Rightarrow> None
      | Some column \<Rightarrow> if df_has_column env df column then Some column else None)"

definition analyze_with_llm ::
  "'df env \<Rightarrow> nat \<Rightarrow> 'df \<Rightarrow> string \<Rightarrow> (exn + pyval) \<times> nat" where
  "analyze_with_llm env t df question_text =
     (case df_summary env df of
        Inl e \<Rightarrow> (Inl e, t)
      | Inr summary \<Rightarrow>
          (case llm_solve_question env t question_text (Some summary) of
             Inl e \<Rightarrow> (Inl e, Suc t)
           | Inr answer \<Rightarrow> (Inr (extract_answer answer), Suc t)))"

definition analyze_dataframe_question ::
  "'df env \<Rightarrow> nat \<Rightarrow> 'df \<Rightarrow> string \<Rightarrow> (exn + pyval) \<times> nat" where
  "analyze_dataframe_question env t df question_text =
     (let question_lower = lower question_text in
      if py_in ''sum'' question_lower then
        (case column_of env df question_text of
           Some column \<Rightarrow> (df_column_sum env df column, t)
         | None \<Rightarrow> (df_total_sum env df, t))
      else if py_in ''mean'' question_lower \<or> py_in ''average'' question_lower then
        (case column_of env df question_text of
           Some column \<Rightarrow> (df_column_mean env df column, t)
         | None \<Rightarrow> (df_total_mean env df, t))
      else if py_in ''count'' question_lower then (Inr (PInt (df_len env df)), t)
      else if py_in ''max'' question_lower then
        (case column_of env df question_text of
           Some column \<Rightarrow> (df_column_max env df column, t)
         | None \<Rightarrow> analyze_with_llm env t df question_text)
      else analyze_with_llm env t df question_text)"

text \<open>
  The second pattern of \<^verbatim>\<open>_solve_file_question\<close>,
  \<^verbatim>\<open>https?://[^\s<>"\'\)]+\.(pdf|csv|json|xlsx|xls)[^\s<>"\'\)]*\<close> with \<^verbatim>\<open>re.IGNORECASE\<close>.  The
  pattern has one group, so \<^verbatim>\<open>re.findall\<close> lists the text of the group, the extension, and
  not the URL.  Inside the stretch of class characters the greedy run gives characters back
  one by one, so the group is taken at the last point, after at least one character, where an
  extension follows; the alternatives are tried in the order written.
\<close>

definition match_scheme_ignorecase :: "string \<Rightarrow> string option" where
  "match_scheme_ignorecase s =
     (if startswith (lower s) ''https://'' then Some (drop 8 s)
      else if startswith (lower s) ''http://'' then Some (drop 7 s)
      else None)"

definition ext_at :: "string \<Rightarrow> string option" where
  "ext_at s =
     (case find (\<lambda>ext. startswith (lower s) ext) [''pdf'', ''csv'', ''json'', ''xlsx'', ''xls''] of
        None \<Rightarrow> None
      | Some ext \<Rightarrow> Some (take (length ext) s))"

fun last_ext :: "string \<Rightarrow> string option" where
  "last_ext [] = None"
| "last_ext (c # cs) =
     (case last_ext cs of
        Some g \<Rightarrow> Some g
      | None \<Rightarrow> if c = CHR ''.'' then ext_at cs else None)"

definition match_file_at :: "string \<Rightarrow> string option" where
  "match_file_at s =
     (case match_scheme_ignorecase s of
        None \<Rightarrow> None
      | Some rest \<Rightarrow>
          (let run = takeWhile url_char rest
           in if run = [] then None else last_ext (tl run)))"

fun search_file_ext :: "string \<Rightarrow> string option" where
  "search_file_ext [] = None"
| "search_file_ext (c # cs) =
     (case match_file_at (c # cs) of Some g \<Rightarrow> Some g | None \<Rightarrow> search_file_ext cs)"

text \<open>The choice of \<^verbatim>\<open>file_url\<close>: the first data URL with an extension in it, else the group.\<close>

definition has_file_ext :: "string \<Rightarrow> bool" where
  "has_file_ext url =
     list_ex (\<lambda>ext. py_in ext (lower url)) [''.pdf'', ''.csv'', ''.json'', ''.xlsx'', ''.xls'']"

definition choose_file_url :: "question_info \<Rightarrow> string option" where
  "choose_file_url question_info =
     (case find has_file_ext (qdata_urls question_info) of
        Some url \<Rightarrow> Some url
      | None \<Rightarrow> search_file_ext (qtext question_info))"

text \<open>The three branches of \<^verbatim>\<open>_solve_file_question\<close> after the download.\<close>

definition solve_pdf_file ::
  "'df env \<Rightarrow> nat \<Rightarrow> string \<Rightarrow> string \<Rightarrow> (exn + pyval) \<times> nat" where
  "solve_pdf_file env t file_bytes question_text =
     (case parse_pdf env file_bytes of
        Inl e \<Rightarrow> (Inl e, t)
      | Inr pdf_text \<Rightarrow>
          (case llm_solve_question env t question_text (Some pdf_text) of
             Inl e \<Rightarrow> (Inl e, Suc t)
           | Inr answer \<Rightarrow> (Inr (extract_answer answer), Suc t)))"

definition solve_csv_file ::
  "'df env \<Rightarrow> nat \<Rightarrow> string \<Rightarrow> string \<Rightarrow> (exn + pyval) \<times> nat" where
  "solve_csv_file env t file_bytes question_text =
     (case decode_utf8 env file_bytes of
        Inl e \<Rightarrow> (Inl e, t)
      | Inr csv_text \<Rightarrow>
          (case parse_csv env csv_text of
             Inl e \<Rightarrow> (Inl e, t)
           | Inr df \<Rightarrow> analyze_dataframe_question env t df question_text))"

definition solve_json_file ::
  "'df env \<Rightarrow> nat \<Rightarrow> string \<Rightarrow> string \<Rightarrow> (exn + pyval) \<times> nat" where
  "solve_json_file env t file_bytes question_text =
     (case decode_utf8 env file_bytes of
        Inl e \<Rightarrow> (Inl e, t)
      | Inr json_text \<Rightarrow>
          (case parse_json env json_text of
             Inl e \<Rightarrow> (Inl e, t)
           | Inr json_data \<Rightarrow>
               (case json_dumps env json_data of
                  Inl e \<Rightarrow> (Inl e, t)
                | Inr dumped \<Rightarrow>
                    (case llm_solve_question env t question_text (Some dumped) of
                       Inl e \<Rightarrow> (Inl e, Suc t)
                     | Inr answer \<Rightarrow> (Inr (extract_answer answer), Suc t)))))"

definition solve_file_question ::
  "'df env \<Rightarrow> nat \<Rightarrow> question_info \<Rightarrow> (exn + pyval) \<times> nat" where
  "solve_file_question env t question_info =
     (case choose_file_url question_info of
        None \<Rightarrow> solve_general_question env t question_info
      | Some file_url \<Rightarrow>
          (case download_file env t file_url of
             Inl e \<Rightarrow> (Inl e, Suc t)
           | Inr file_bytes \<Rightarrow>
               if endswith file_url ''.pdf''
                 then solve_pdf_file env (Suc t) file_bytes (qtext question_info)
               else if endswith file_url ''.csv''
                 then solve_csv_file env (Suc t) file_bytes (qtext question_info)
               else if endswith file_url ''.json''
                 then solve_json_file env (Suc t) file_bytes (qtext question_info)
               else solve_general_question env (Suc t) question_info))"

definition solve_api_question ::
  "'df env \<Rightarrow> nat \<Rightarrow> question_info \<Rightarrow> (exn + pyval) \<times> nat" where
  "solve_api_question env t question_info =
     (case find (\<lambda>url. py_in ''api'' (lower url) \<or> py_in ''endpoint'' (lower url))
             (qdata_urls question_info) of
        None \<Rightarrow> solve_general_question env t question_info
      | Some api_url \<Rightarrow>
          (case fetch_api_data env t api_url of
             Inl e \<Rightarrow> (Inl e, Suc t)
           | Inr api_data \<Rightarrow>
               (case (case api_data of PDict d \<Rightarrow> json_dumps env api_data
                                     | _ \<Rightarrow> Inr (py_str env api_data)) of
                  Inl e \<Rightarrow> (Inl e, Suc t)
                | Inr dumped \<Rightarrow>
                    (case llm_solve_question env (Suc t) (qtext question_info) (Some dumped) of
                       Inl e \<Rightarrow> (Inl e, Suc (Suc t))
                     | Inr answer \<Rightarrow> (Inr (extract_answer answer), Suc (Suc t))))))"

definition solve_pdf_question ::
  "'df env \<Rightarrow> nat \<Rightarrow> question_info \<Rightarrow> (exn + pyval) \<times> nat" where
  "solve_pdf_question env t question_info = solve_file_question env t question_info"

definition solve_data_analysis_question ::
  "'df env \<Rightarrow> nat \<Rightarrow> question_info \<Rightarrow> (exn + pyval) \<times> nat" where
  "solve_data_analysis_question env t question_info =
     (let tables = extract_tables_from_html env (qhtml question_info) in
      if tables \<noteq> [] then
        (case (if length tables = 1 then Inr (hd tables) else pd_concat env tables) of
           Inl e \<Rightarrow> (Inl e, t)
         | Inr df \<Rightarrow> analyze_dataframe_question env t df (qtext question_info))
      else solve_general_question env t question_info)"

definition solve_visualization_question ::
  "'df env \<Rightarrow> nat \<Rightarrow> question_info \<Rightarrow> (exn + pyval) \<times> nat" where
  "solve_visualization_question env t question_info = solve_general_question env t question_info"

text \<open>
  \<^verbatim>\<open>_solve_question\<close>: \<open>dispatch\<close> is the body of its \<^verbatim>\<open>try\<close>, and the handler runs the general
  path again, at the tick the failed path has reached.
\<close>

definition dispatch ::
  "'df env \<Rightarrow> nat \<Rightarrow> question_info \<Rightarrow> (exn + pyval) \<times> nat" where
  "dispatch env t question_info =
     (case qtype question_info of
        File_download \<Rightarrow> solve_file_question env t question_info
      | Api_fetch \<Rightarrow> solve_api_question env t question_info
      | Pdf_analysis \<Rightarrow> solve_pdf_question env t question_info
      | Data_analysis \<Rightarrow> solve_data_analysis_question env t question_info
      | Visualization \<Rightarrow> solve_visualization_question env t question_info
      | General \<Rightarrow> solve_general_question env t question_info)"

definition solve_question ::
  "'df env \<Rightarrow> nat \<Rightarrow> question_info \<Rightarrow> (exn + pyval) \<times> nat" where
  "solve_question env t question_info =
     (case dispatch env t question_info of
        (Inr answer, t') \<Rightarrow> (Inr answer, t')
      | (Inl e, t') \<Rightarrow> solve_general_question env t' question_info)"

section \<open>Submission\<close>

text \<open>
  The result dictionary of one quiz page.  A key that a dictionary does not have is \<open>None\<close>
  here; \<open>url\<close> and \<open>correct\<close> are in every result.
\<close>

record step_result =
  url :: pyval
  answer :: "pyval option"
  correct :: pyval
  next_url :: "pyval option"
  reason :: "pyval option"
  attempt :: "int option"
  error :: "string option"

text \<open>\<^verbatim>\<open>result.get('next_url')\<close>.\<close>

definition get_next_url :: "step_result \<Rightarrow> pyval" where
  "get_next_url result = (case next_url result of None \<Rightarrow> PNone | Some v \<Rightarrow> v)"

text \<open>
  One pass through the body of the \<^verbatim>\<open>for\<close> loop of \<^verbatim>\<open>_submit_answer\<close>, up to the point where
  it returns or goes on: \<open>Some\<close> of the returned result when the status is 200 and the body is
  a JSON object, \<open>None\<close> otherwise.  The attempt goes on after another status, after an
  exception of the request, and after an exception of \<^verbatim>\<open>response.json()\<close> or of \<^verbatim>\<open>result.get\<close>
  on a body that is not an object, which the \<^verbatim>\<open>except\<close> clause of the loop catches.
\<close>

definition post_once ::
  "'df env \<Rightarrow> nat \<Rightarrow> string \<Rightarrow> payload \<Rightarrow> nat \<Rightarrow> step_result option" where
  "post_once env t submit_url payload attempt_no =
     (case client_post env t submit_url payload of
        Inl e \<Rightarrow> None
      | Inr (status_code, body) \<Rightarrow>
          if status_code = 200 then
            (case body of
               Inr (PDict result) \<Rightarrow>
                 Some \<lparr> url = payload_url payload,
                        answer = Some (payload_answer payload),
                        correct = dict_get result ''correct'' (PBool False),
                        next_url = Some (dict_get result ''url'' PNone),
                        reason = Some (dict_get result ''reason'' PNone),
                        attempt = Some (int attempt_no + 1),
                        error = None \<rparr>
             | _ \<Rightarrow> None)
          else None)"

text \<open>
  The loop over \<^verbatim>\<open>range(max_retries)\<close>.  A failed attempt that is not the last one sleeps,
  which is one more tick.  \<open>None\<close> is the loop running to its end.
\<close>

fun submit_attempts ::
  "'df env \<Rightarrow> string \<Rightarrow> payload \<Rightarrow> nat \<Rightarrow> nat list \<Rightarrow> nat \<Rightarrow> step_result option \<times> nat" where
  "submit_attempts env submit_url payload max_retries [] t = (None, t)"
| "submit_attempts env submit_url payload max_retries (attempt_no # rest) t =
     (case post_once env t submit_url payload attempt_no of
        Some result \<Rightarrow> (Some result, Suc t)
      | None \<Rightarrow>
          submit_attempts env submit_url payload max_retries rest
            (if int attempt_no < int max_retries - 1 then Suc (Suc t) else Suc t))"

definition submit_answer ::
  "quiz_solver \<Rightarrow> 'df env \<Rightarrow> nat \<Rightarrow> string \<Rightarrow> pyval \<Rightarrow> pyval \<Rightarrow> nat \<Rightarrow> step_result \<times> nat" where
  "submit_answer self env t submit_url quiz_url answer_value max_retries =
     (let payload = \<lparr> payload_email = email self, payload_secret = secret self,
                       payload_url = quiz_url, payload_answer = answer_value \<rparr>
      in case submit_attempts env submit_url payload max_retries [0..<max_retries] t of
           (Some result, t') \<Rightarrow> (result, t')
         | (None, t') \<Rightarrow>
             (\<lparr> url = quiz_url, answer = Some answer_value, correct = PBool False,
                next_url = None, reason = None, attempt = None,
                error = Some ''Failed to submit after retries'' \<rparr>, t'))"

section \<open>Orchestrator\<close>

text \<open>
  \<^verbatim>\<open>_solve_single_quiz\<close>: \<open>solve_single_quiz_try\<close> is the body of its \<^verbatim>\<open>try\<close>, whose result is
  \<open>Inl\<close> when a call in it raises; \<open>solve_single_quiz\<close> adds the handler.
\<close>

definition solve_single_quiz_try ::
  "quiz_solver \<Rightarrow> 'df env \<Rightarrow> nat \<Rightarrow> pyval \<Rightarrow> (exn + step_result) \<times> nat" where
  "solve_single_quiz_try self env t quiz_url =
     (case browser_navigate env t quiz_url of
        Inl e \<Rightarrow> (Inl e, Suc t)
      | Inr html_content \<Rightarrow>
          (case browser_extract_text env (Suc t) quiz_url of
             Inl e \<Rightarrow> (Inl e, Suc (Suc t))
           | Inr text_content \<Rightarrow>
               (let question_info = extract_question_info text_content html_content in
                case solve_question env (Suc (Suc t)) question_info of
                  (Inl e, t1) \<Rightarrow> (Inl e, t1)
                | (Inr answer_value, t1) \<Rightarrow>
                    (case (case qsubmit_url question_info of
                             Some u \<Rightarrow> Some u
                           | None \<Rightarrow> extract_submit_url html_content) of
                       Some u \<Rightarrow>
                         (case submit_answer self env t1 u quiz_url answer_value 3 of
                            (result, t2) \<Rightarrow> (Inr result, t2))
                     | None \<Rightarrow>
                         (Inr \<lparr> url = quiz_url, answer = Some answer_value, correct = PNone,
                                next_url = None, reason = None, attempt = None,
                                error = Some ''No submit URL found'' \<rparr>, t1)))))"

definition solve_single_quiz ::
  "quiz_solver \<Rightarrow> 'df env \<Rightarrow> nat \<Rightarrow> pyval \<Rightarrow> step_result \<times> nat" where
  "solve_single_quiz self env t quiz_url =
     (case solve_single_quiz_try self env t quiz_url of
        (Inr result, t') \<Rightarrow> (result, t')
      | (Inl (Exception msg), t') \<Rightarrow>
          (\<lparr> url = quiz_url, answer = None, correct = PBool False,
             next_url = None, reason = None, attempt = None, error = Some msg \<rparr>, t'))"

text \<open>
  The state at the head of the \<^verbatim>\<open>while\<close> loop of \<^verbatim>\<open>solve_quiz\<close>, and one pass through its
  body: the loop goes on in a new state, or it ends with the list of results.
\<close>

record loop_state =
  tick :: nat
  current_url :: pyval
  results :: "step_result list"

datatype loop_out = Continue loop_state | Break "step_result list" nat

definition loop_step :: "quiz_solver \<Rightarrow> 'df env \<Rightarrow> int \<Rightarrow> loop_state \<Rightarrow> loop_out" where
  "loop_step self env start_time s =
     (if \<not> truthy (current_url s) then Break (results s) (tick s)
      else if now env (tick s) - start_time > max_time then Break (results s) (Suc (tick s))
      else
        (case solve_single_quiz self env (Suc (tick s)) (current_url s) of
           (result, t1) \<Rightarrow>
             (let results1 = results s @ [result] in
              if truthy (correct result) then
                (if \<not> truthy (get_next_url result) then Break results1 t1
                 else Continue \<lparr> tick = t1, current_url = get_next_url result, results = results1 \<rparr>)
              else
                (if truthy (get_next_url result)
                 then Continue \<lparr> tick = t1, current_url = get_next_url result, results = results1 \<rparr>
                 else Break results1 t1))))"

text \<open>
  The loop.  Nothing bounds the number of pages a server may chain, so the loop is run on
  fuel: \<open>None\<close> is the loop still running when the fuel is spent.
\<close>

fun solve_loop ::
  "nat \<Rightarrow> quiz_solver \<Rightarrow> 'df env \<Rightarrow> int \<Rightarrow> loop_state \<Rightarrow> (step_result list \<times> nat) option" where
  "solve_loop 0 self env start_time s = None"
| "solve_loop (Suc fuel) self env start_time s =
     (case loop_step self env start_time s of
        Break rs t \<Rightarrow> Some (rs, t)
      | Continue s' \<Rightarrow> solve_loop fuel self env start_time s')"

text \<open>
  The dictionary \<^verbatim>\<open>solve_quiz\<close> returns; \<open>total_time\<close> is in microseconds.
\<close>

record summary =
  success :: bool
  summary_results :: "step_result list"
  total_time :: "int option"
  summary_error :: "string option"

text \<open>
  \<^verbatim>\<open>solve_quiz\<close>.  The clock is read at tick 0 and the browser is started at tick 1.  Inside
  the \<^verbatim>\<open>try\<close> only \<^verbatim>\<open>browser.start()\<close> can raise, since \<^verbatim>\<open>_solve_single_quiz\<close> handles every
  exception of its own body.  The \<^verbatim>\<open>finally\<close> clause closes the browser, which changes nothing
  of what is returned.
\<close>

definition initial_state :: "string \<Rightarrow> loop_state" where
  "initial_state initial_url = \<lparr> tick = 2, current_url = PStr initial_url, results = [] \<rparr>"

definition solve_quiz :: "nat \<Rightarrow> quiz_solver \<Rightarrow> 'df env \<Rightarrow> string \<Rightarrow> summary option" where
  "solve_quiz fuel self env initial_url =
     (let start_time = now env 0 in
      case browser_start env 1 of
        Some (Exception msg) \<Rightarrow>
          Some \<lparr> success = False, summary_results = [], total_time = None,
                 summary_error = Some msg \<rparr>
      | None \<Rightarrow>
          (case solve_loop fuel self env start_time (initial_state initial_url) of
             None \<Rightarrow> None
           | Some (rs, t) \<Rightarrow>
               Some \<lparr> success = True, summary_results = rs,
                      total_time = Some (now env t - start_time), summary_error = None \<rparr>))"

text \<open>
  The state after \<open>k\<close> passes through the loop body that all went on, if there is one.
\<close>

fun run :: "nat \<Rightarrow> quiz_solver \<Rightarrow> 'df env \<Rightarrow> int \<Rightarrow> loop_state \<Rightarrow> loop_state option" where
  "run 0 self env start_time s = Some s"
| "run (Suc k) self env start_time s =
     (case loop_step self env start_time s of
        Break rs t \<Rightarrow> None
      | Continue s' \<Rightarrow> run k self env start_time s')"

section \<open>Notions used in the statements\<close>

text \<open>An HTTP response with status 200, as opposed to another status or a failed request.\<close>

definition status_200 :: "exn + (int \<times> (exn + pyval)) \<Rightarrow> bool" where
  "status_200 response =
     (case response of Inl e \<Rightarrow> False | Inr (status_code, body) \<Rightarrow> status_code = 200)"

text \<open>The payload \<^verbatim>\<open>_submit_answer\<close> posts.\<close>

definition payload_of :: "quiz_solver \<Rightarrow> pyval \<Rightarrow> pyval \<Rightarrow> payload" where
  "payload_of self quiz_url answer_value =
     \<lparr> payload_email = email self, payload_secret = secret self,
       payload_url = quiz_url, payload_answer = answer_value \<rparr>"

text \<open>
  A list of results follows the server from the URL \<open>u\<close>: the first result is for \<open>u\<close>, and
  each further one is for the next URL of the result before it.
\<close>

fun follows :: "pyval \<Rightarrow> step_result list \<Rightarrow> bool" where
  "follows u [] = True"
| "follows u (r # rs) = (url r = u \<and> follows (get_next_url r) rs)"

fun end_url :: "pyval \<Rightarrow> step_result list \<Rightarrow> pyval" where
  "end_url u [] = u"
| "end_url u (r # rs) = end_url (get_next_url r) rs"

text \<open>The list of results after a pass through the loop body, whether the loop goes on or ends.\<close>

definition out_results :: "loop_out \<Rightarrow> step_result list" where
  "out_results out = (case out of Continue s \<Rightarrow> results s | Break rs t \<Rightarrow> rs)"

section \<open>Example environments\<close>

text \<open>An environment in which every collaborator fails and the clock stands still.\<close>

definition offline :: "unit env" where
  "offline =
     \<lparr> now = (\<lambda>t. 0),
       browser_start = (\<lambda>t. None),
       browser_navigate = (\<lambda>t u. Inl (Exception ''offline'')),
       browser_extract_text = (\<lambda>t u. Inl (Exception ''offline'')),
       llm_solve_question = (\<lambda>t q c. Inl (Exception ''offline'')),
       download_file = (\<lambda>t u. Inl (Exception ''offline'')),
       fetch_api_data = (\<lambda>t u. Inl (Exception ''offline'')),
       client_post = (\<lambda>t u p. Inl (Exception ''offline'')),
       parse_pdf = (\<lambda>b. Inl (Exception ''no parser'')),
       decode_utf8 = (\<lambda>b. Inr b),
       parse_csv = (\<lambda>b. Inr ()),
       parse_json = (\<lambda>b. Inl (Exception ''no parser'')),
       json_dumps = (\<lambda>v. Inr ''{}''),
       py_str = (\<lambda>v. ''''),
       extract_tables_from_html = (\<lambda>h. []),
       pd_concat = (\<lambda>ds. Inr ()),
       df_has_column = (\<lambda>d c. False),
       df_column_sum = (\<lambda>d c. Inr (PFloat (Finite False 0))),
       df_total_sum = (\<lambda>d. Inr (PFloat (Finite False 0))),
       df_column_mean = (\<lambda>d c. Inr (PFloat (Finite False 0))),
       df_total_mean = (\<lambda>d. Inr (PFloat (Finite False 0))),
       df_len = (\<lambda>d. 0),
       df_column_max = (\<lambda>d c. Inr PNone),
       df_summary = (\<lambda>d. Inr '''') \<rparr>"

definition student :: quiz_solver where
  "student = \<lparr> email = ''student@example.com'', secret = ''s3cret'' \<rparr>"

text \<open>A submit endpoint that answers 500 to every request.\<close>

definition always_500 :: "unit env" where
  "always_500 = offline \<lparr> client_post := (\<lambda>t u p. Inr (500, Inl (Exception ''no JSON''))) \<rparr>"

text \<open>
  A submit endpoint that answers 500 up to tick 3 and then 200 with
  \<^verbatim>\<open>{"correct": true, "url": "next"}\<close>.
\<close>

definition third_time_lucky :: "unit env" where
  "third_time_lucky = offline \<lparr> client_post := (\<lambda>t u p.
       if t < 4 then Inr (500, Inl (Exception ''no JSON''))
       else Inr (200, Inr (PDict [(''correct'', PBool True), (''url'', PStr ''next'')]))) \<rparr>"

text \<open>
  A quiz server with one page that renders: its text asks a question, its markup names a
  submit URL, the language model answers \<^verbatim>\<open>42\<close>, and every submission is accepted and sent on
  to a second page, which does not load.
\<close>

definition quiz_server :: "unit env" where
  "quiz_server = offline
     \<lparr> browser_navigate := (\<lambda>t u.
          if u = PStr ''http://quiz/1'' then Inr ''<p>Post to http://quiz/submit</p>''
          else Inl (Exception ''page not found'')),
       browser_extract_text := (\<lambda>t u. Inr ''What is 6 times 7?''),
       llm_solve_question := (\<lambda>t q c. Inr ''42''),
       client_post := (\<lambda>t u p.
          Inr (200, Inr (PDict [(''correct'', PBool True), (''url'', PStr ''http://quiz/2'')]))) \<rparr>"

text \<open>The same server seen through a clock that has run for 200 seconds from tick 7 on.\<close>

definition slow_server :: "unit env" where
  "slow_server = quiz_server \<lparr> now := (\<lambda>t. if t < 7 then 0 else 200000000) \<rparr>"

text \<open>The same server, but its first answer sends the solver to the page it has just solved.\<close>

definition looping_server :: "unit env" where
  "looping_server = quiz_server
     \<lparr> client_post := (\<lambda>t u p.
          if t < 9
          then Inr (200, Inr (PDict [(''correct'', PBool True), (''url'', PStr ''http://quiz/1'')]))
          else Inr (200, Inr (PDict [(''correct'', PBool True)]))) \<rparr>"

text \<open>The same server, answering 200 with a body that has neither \<^verbatim>\<open>correct\<close> nor \<^verbatim>\<open>url\<close>.\<close>

definition sloppy_server :: "unit env" where
  "sloppy_server = quiz_server
     \<lparr> client_post := (\<lambda>t u p. Inr (200, Inr (PDict [(''reason'', PStr ''thanks'')]))) \<rparr>"

text \<open>The same server with a page whose markup names no submit URL.\<close>

definition no_submit_server :: "unit env" where
  "no_submit_server = quiz_server
     \<lparr> browser_navigate := (\<lambda>t u. Inr ''<p>What is 6 times 7?</p>'') \<rparr>"

text \<open>A language model that answers \<^verbatim>\<open>42\<close> while nothing can be downloaded.\<close>

definition model_only :: "unit env" where
  "model_only = offline \<lparr> llm_solve_question := (\<lambda>t q c. Inr ''42'') \<rparr>"

text \<open>A submit endpoint that answers 200 with the JSON body \<^verbatim>\<open>[]\<close>, which is not an object.\<close>

definition list_body_server :: "unit env" where
  "list_body_server = offline \<lparr> client_post := (\<lambda>t u p. Inr (200, Inr (PList []))) \<rparr>"

text \<open>An environment in which the browser does not start.\<close>

definition no_browser :: "unit env" where
  "no_browser = offline \<lparr> browser_start := (\<lambda>t. Some (Exception ''no browser'')) \<rparr>"

text \<open>
  The quiz server again, but every answer sends the solver back to the page it has just
  solved, and the clock stands still: a session that never ends.
\<close>

definition endless_server :: "unit env" where
  "endless_server = quiz_server
     \<lparr> client_post := (\<lambda>t u p.
          Inr (200, Inr (PDict [(''correct'', PBool True), (''url'', PStr ''http://quiz/1'')]))) \<rparr>"


section \<open>Strings and the number pattern\<close>


lemma startswith_append: "startswith (p @ s) p"
  by (induction p) auto

lemma startswith_iff: "startswith s p \<longleftrightarrow> (\<exists>r. s = p @ r)"
  by (induction s p rule: startswith.induct) auto

lemma startswith_py_in: "startswith s n \<Longrightarrow> py_in n s"
  by (cases s; cases n) auto

lemma py_in_iff: "py_in n s \<longleftrightarrow> (\<exists>a b. s = a @ n @ b)"
proof (induction s)
  case Nil
  then show ?case by auto
next
  case (Cons c cs)
  show ?case
  proof
    assume "py_in n (c # cs)"
    then consider "startswith (c # cs) n" | "py_in n cs" by auto
    then show "\<exists>a b. c # cs = a @ n @ b"
    proof cases
      case 1
      then obtain r where "c # cs = n @ r" by (auto simp: startswith_iff)
      then have "c # cs = [] @ n @ r" by simp
      then show ?thesis by blast
    next
      case 2
      then obtain a b where "cs = a @ n @ b" using Cons.IH by auto
      then have "c # cs = (c # a) @ n @ b" by simp
      then show ?thesis by blast
    qed
  next
    assume "\<exists>a b. c # cs = a @ n @ b"
    then obtain a b where ab: "c # cs = a @ n @ b" by auto
    show "py_in n (c # cs)"
    proof (cases a)
      case Nil
      then have "startswith (c # cs) n" using ab by (auto simp: startswith_iff)
      then show ?thesis by (rule startswith_py_in)
    next
      case (Cons x xs)
      then have "cs = xs @ n @ b" using ab by simp
      then show ?thesis using Cons.IH by auto
    qed
  qed
qed

lemma takeWhile_stop: "rest = [] \<or> \<not> P (hd rest) \<Longrightarrow> takeWhile P rest = []"
  by (cases rest) auto

lemma dropWhile_stop: "rest = [] \<or> \<not> P (hd rest) \<Longrightarrow> dropWhile P rest = rest"
  by (cases rest) auto

lemma isdigit_minus: "\<not> isdigit CHR ''-''" by (simp add: isdigit_def)
lemma isdigit_dot: "\<not> isdigit CHR ''.''" by (simp add: isdigit_def)

lemma match_number_at_nondigit:
  assumes "s = [] \<or> (\<not> isdigit (hd s) \<and> (hd s = CHR ''-'' \<longrightarrow> tl s = [] \<or> \<not> isdigit (hd (tl s))))"
  shows "match_number_at s = None"
proof (cases s)
  case Nil
  then show ?thesis by (simp add: match_number_at_def)
next
  case (Cons c cs)
  show ?thesis
  proof (cases "c = CHR ''-''")
    case True
    with Cons assms have "cs = [] \<or> \<not> isdigit (hd cs)" by auto
    then have "takeWhile isdigit cs = []" by (rule takeWhile_stop)
    with Cons True show ?thesis by (simp add: match_number_at_def)
  next
    case False
    with Cons assms have "\<not> isdigit c" by auto
    with Cons False show ?thesis by (simp add: match_number_at_def)
  qed
qed

lemma search_number_skip:
  assumes "\<forall>c\<in>set pre. \<not> isdigit c"
    and "pre \<noteq> [] \<and> last pre = CHR ''-'' \<longrightarrow> s = [] \<or> \<not> isdigit (hd s)"
  shows "search_number (pre @ s) = search_number s"
  using assms
proof (induction pre)
  case Nil
  then show ?case by simp
next
  case (Cons c pre)
  have "match_number_at (c # pre @ s) = None"
  proof (rule match_number_at_nondigit)
    show "c # pre @ s = [] \<or> (\<not> isdigit (hd (c # pre @ s)) \<and>
       (hd (c # pre @ s) = CHR ''-'' \<longrightarrow> tl (c # pre @ s) = [] \<or> \<not> isdigit (hd (tl (c # pre @ s)))))"
      using Cons.prems by (cases pre) auto
  qed
  moreover have "search_number (pre @ s) = search_number s"
    using Cons by (cases pre) auto
  ultimately show ?case by simp
qed

lemma search_number_none: "\<forall>c\<in>set r. \<not> isdigit c \<Longrightarrow> search_number r = None"
  using search_number_skip [of r "[]"] by simp

lemma search_number_hit: "match_number_at s = Some m \<Longrightarrow> search_number s = Some m"
  by (cases s) (auto simp: match_number_at_def)

lemma match_int_token:
  assumes "sign = [] \<or> sign = ''-''" "ds \<noteq> []" "\<forall>c\<in>set ds. isdigit c"
    and "rest = [] \<or> (\<not> isdigit (hd rest) \<and> hd rest \<noteq> CHR ''.'')"
  shows "match_number_at (sign @ ds @ rest) = Some (sign @ ds)"
proof -
  have r: "rest = [] \<or> \<not> isdigit (hd rest)" using assms(4) by auto
  have tw: "takeWhile isdigit (ds @ rest) = ds"
    using assms(3) r by (simp add: takeWhile_stop)
  have dw: "dropWhile isdigit (ds @ rest) = rest"
    using assms(3) r by (simp add: dropWhile_stop)
  have nd: "\<not> startswith rest ''.''" using assms(4) by (cases rest) auto
  have hd: "\<not> startswith (ds @ rest) ''-''"
    using assms(2,3) isdigit_minus by (cases ds) auto
  from assms(1) show ?thesis
  proof
    assume "sign = []"
    then show ?thesis using tw dw nd hd assms(2) r
      by (simp add: match_number_at_def takeWhile_stop)
  next
    assume "sign = ''-''"
    then show ?thesis using tw dw nd assms(2) r
      by (simp add: match_number_at_def takeWhile_stop)
  qed
qed

lemma match_float_token:
  assumes "sign = [] \<or> sign = ''-''" "ds \<noteq> []" "\<forall>c\<in>set ds. isdigit c"
    and "\<forall>c\<in>set fs. isdigit c" "rest = [] \<or> \<not> isdigit (hd rest)"
  shows "match_number_at (sign @ ds @ ''.'' @ fs @ rest) = Some (sign @ ds @ ''.'' @ fs)"
proof -
  have tw: "takeWhile isdigit (ds @ CHR ''.'' # fs @ rest) = ds"
    using assms(3) isdigit_dot by simp
  have dw: "dropWhile isdigit (ds @ CHR ''.'' # fs @ rest) = CHR ''.'' # fs @ rest"
    using assms(3) isdigit_dot by simp
  have tf: "takeWhile isdigit (fs @ rest) = fs"
    using assms(4,5) by (simp add: takeWhile_stop)
  have hd: "\<not> startswith (ds @ CHR ''.'' # fs @ rest) ''-''"
    using assms(2,3) isdigit_minus by (cases ds) auto
  from assms(1) show ?thesis
  proof
    assume "sign = []"
    then show ?thesis using tw dw tf hd assms(2)
      by (simp add: match_number_at_def)
  next
    assume "sign = ''-''"
    then show ?thesis using tw dw tf assms(2)
      by (simp add: match_number_at_def)
  qed
qed


lemma int_of_token_pos:
  assumes "ds \<noteq> []" "\<forall>c\<in>set ds. isdigit c"
  shows "int_of_token ds =
     (if INT_MAX_STR_DIGITS < length ds then None else Some (int (digits_val ds)))"
proof -
  have "\<not> startswith ds ''-''" using assms isdigit_minus by (cases ds) auto
  then show ?thesis by (simp add: int_of_token_def)
qed

lemma int_of_token_neg:
  "int_of_token (''-'' @ ds) =
     (if INT_MAX_STR_DIGITS < length ds then None else Some (- int (digits_val ds)))"
  by (simp add: int_of_token_def)

lemma float_of_token_pos:
  assumes "ds \<noteq> []" "\<forall>c\<in>set ds. isdigit c"
  shows "float_of_token (ds @ ''.'' @ fs) =
     to_double False (of_nat (digits_val ds) + of_nat (digits_val fs) / of_nat (10 ^ length fs))"
proof -
  have "\<not> startswith (ds @ ''.'' @ fs) ''-''"
    using assms isdigit_minus by (cases ds) auto
  moreover have "takeWhile isdigit (ds @ ''.'' @ fs) = ds"
    using assms(2) isdigit_dot by simp
  ultimately show ?thesis by (simp add: float_of_token_def)
qed

lemma float_of_token_neg:
  assumes "\<forall>c\<in>set ds. isdigit c"
  shows "float_of_token (''-'' @ ds @ ''.'' @ fs) =
     to_double True (of_nat (digits_val ds) + of_nat (digits_val fs) / of_nat (10 ^ length fs))"
proof -
  have "takeWhile isdigit (ds @ ''.'' @ fs) = ds"
    using assms isdigit_dot by simp
  then show ?thesis by (simp add: float_of_token_def)
qed

lemma search_number_token:
  assumes "no_earlier_match pre sign" "sign = [] \<or> sign = ''-''" "ds \<noteq> []" "\<forall>c\<in>set ds. isdigit c"
  shows "search_number (pre @ sign @ ds @ rest) = search_number (sign @ ds @ rest)"
proof (rule search_number_skip)
  show "\<forall>c\<in>set pre. \<not> isdigit c" using assms(1) by (simp add: no_earlier_match_def)
  show "pre \<noteq> [] \<and> last pre = CHR ''-'' \<longrightarrow>
        sign @ ds @ rest = [] \<or> \<not> isdigit (hd (sign @ ds @ rest))"
    using assms(1,2) isdigit_minus by (auto simp: no_earlier_match_def)
qed

lemma int_of_token_signed:
  assumes "sign = [] \<or> sign = ''-''" "ds \<noteq> []" "\<forall>c\<in>set ds. isdigit c"
  shows "int_of_token (sign @ ds) =
     (if INT_MAX_STR_DIGITS < length ds then None
      else Some (if sign = ''-'' then - int (digits_val ds) else int (digits_val ds)))"
  using assms int_of_token_pos [of ds] int_of_token_neg [of ds] by auto

lemma extract_answer_int_token:
  assumes "no_earlier_match pre sign" "sign = [] \<or> sign = ''-''" "ds \<noteq> []" "\<forall>c\<in>set ds. isdigit c"
    and "rest = [] \<or> (\<not> isdigit (hd rest) \<and> hd rest \<noteq> CHR ''.'')"
  shows "extract_answer (pre @ sign @ ds @ rest) =
     (if INT_MAX_STR_DIGITS < length ds then PStr (strip (pre @ sign @ ds @ rest))
      else PInt (if sign = ''-'' then - int (digits_val ds) else int (digits_val ds)))"
proof -
  have "search_number (pre @ sign @ ds @ rest) = Some (sign @ ds)"
    using search_number_token [OF assms(1-4)] match_int_token [OF assms(2-5)]
    by (simp add: search_number_hit)
  moreover have "CHR ''.'' \<notin> set (sign @ ds)"
    using assms(2,4) isdigit_dot by auto
  ultimately show ?thesis
    using int_of_token_signed [OF assms(2-4)] by (simp add: extract_answer_def)
qed

lemma extract_answer_float:
  assumes "no_earlier_match pre sign" "sign = [] \<or> sign = ''-''" "ds \<noteq> []" "\<forall>c\<in>set ds. isdigit c"
    and "\<forall>c\<in>set fs. isdigit c" "rest = [] \<or> \<not> isdigit (hd rest)"
  shows "extract_answer (pre @ sign @ ds @ ''.'' @ fs @ rest) =
         PFloat (to_double (sign = ''-'')
           (of_nat (digits_val ds) + of_nat (digits_val fs) / of_nat (10 ^ length fs)))"
proof -
  have "search_number (pre @ sign @ ds @ (''.'' @ fs @ rest)) = search_number (sign @ ds @ (''.'' @ fs @ rest))"
    using assms(1-4) by (rule search_number_token)
  then have "search_number (pre @ sign @ ds @ ''.'' @ fs @ rest) = Some (sign @ ds @ ''.'' @ fs)"
    using match_float_token [OF assms(2-6)] by (simp add: search_number_hit)
  moreover have "CHR ''.'' \<in> set (sign @ ds @ ''.'' @ fs)" by simp
  moreover have "float_of_token (sign @ ds @ ''.'' @ fs) =
      to_double (sign = ''-'')
        (of_nat (digits_val ds) + of_nat (digits_val fs) / of_nat (10 ^ length fs))"
    using assms(2-4) float_of_token_pos [of ds fs] float_of_token_neg [of ds fs]
    by auto
  ultimately show ?thesis by (simp add: extract_answer_def)
qed

lemma extract_answer_text: "\<forall>c\<in>set r. \<not> isdigit c \<Longrightarrow> extract_answer r = PStr (strip r)"
  by (simp add: extract_answer_def search_number_none)

lemma strip_core:
  assumes "\<forall>c\<in>set l. isspace c" "\<forall>c\<in>set t. isspace c"
    and "m = [] \<or> (\<not> isspace (hd m) \<and> \<not> isspace (last m))"
  shows "strip (l @ m @ t) = m"
proof (cases "m = []")
  case True
  have "\<forall>x\<in>set (l @ [] @ t). isspace x" using assms(1,2) by auto
  then have dz: "dropWhile isspace (l @ [] @ t) = []" by (simp only: dropWhile_eq_Nil_conv)
  have "strip (l @ [] @ t) = rev (dropWhile isspace (rev []))" unfolding strip_def dz ..
  then have "strip (l @ [] @ t) = []" by simp
  with True show ?thesis by simp
next
  case False
  with assms(3) have h: "\<not> isspace (hd m)" and e: "\<not> isspace (last m)" by simp_all
  have "dropWhile isspace (m @ t) = m @ t"
    using h False by (intro dropWhile_stop) simp
  moreover have "dropWhile isspace (l @ m @ t) = dropWhile isspace (m @ t)"
    using assms(1) by (intro dropWhile_append2) simp
  ultimately have front: "dropWhile isspace (l @ m @ t) = m @ t" by simp
  have "dropWhile isspace (rev m) = rev m"
    using e False by (intro dropWhile_stop) (simp add: hd_rev)
  moreover have "dropWhile isspace (rev t @ rev m) = dropWhile isspace (rev m)"
    using assms(2) by (intro dropWhile_append2) simp
  ultimately have rear: "dropWhile isspace (rev (m @ t)) = rev m" by simp
  have "strip (l @ m @ t) = rev (dropWhile isspace (rev (m @ t)))"
    unfolding strip_def front ..
  then show ?thesis unfolding rear by simp
qed

lemma double_seven_halves: "double_of_magnitude (7 / 2) = Some (7 / 2)"
  by code_simp

text \<open>
  Claim C4, as amended.  The coercion \<open>extract_answer\<close> reads the first number-shaped token of
  the response.  When the response is \<open>pre @ sign @ ds @ rest\<close> with \<open>ds\<close> a non-empty run of digits
  that ends there, an optional minus sign \<open>sign\<close> and no earlier token in \<open>pre\<close>, then: if no
  decimal point follows the digits, the result is the integer the token denotes when the token
  has at most 4300 digits, and the stripped response when it has more (the conversion raises
  and the exception is swallowed); if a point and the digits \<open>fs\<close> follow, the result is the
  double nearest to the decimal number \<open>sign ds . fs\<close>, an infinity when that is out of range.
  A response without any digit is returned as its stripped text, and stripping removes
  exactly the white space at both ends.
\<close>

theorem extract_answer_coercion:
  "(no_earlier_match pre sign \<and> (sign = [] \<or> sign = ''-'') \<and> ds \<noteq> [] \<and> (\<forall>c\<in>set ds. isdigit c) \<and>
      (rest = [] \<or> (\<not> isdigit (hd rest) \<and> hd rest \<noteq> CHR ''.'')) \<and> length ds \<le> 4300
    \<longrightarrow> extract_answer (pre @ sign @ ds @ rest) =
         PInt (if sign = ''-'' then - int (digits_val ds) else int (digits_val ds)))
   \<and> (no_earlier_match pre sign \<and> (sign = [] \<or> sign = ''-'') \<and> ds \<noteq> [] \<and> (\<forall>c\<in>set ds. isdigit c) \<and>
      (rest = [] \<or> (\<not> isdigit (hd rest) \<and> hd rest \<noteq> CHR ''.'')) \<and> 4300 < length ds
    \<longrightarrow> extract_answer (pre @ sign @ ds @ rest) = PStr (strip (pre @ sign @ ds @ rest)))
   \<and> (no_earlier_match pre sign \<and> (sign = [] \<or> sign = ''-'') \<and> ds \<noteq> [] \<and> (\<forall>c\<in>set ds. isdigit c) \<and>
      (\<forall>c\<in>set fs. isdigit c) \<and> (rest = [] \<or> \<not> isdigit (hd rest))
    \<longrightarrow> extract_answer (pre @ sign @ ds @ ''.'' @ fs @ rest) =
         PFloat (to_double (sign = ''-'')
           (of_nat (digits_val ds) + of_nat (digits_val fs) / of_nat (10 ^ length fs))))
   \<and> ((\<forall>c\<in>set r. \<not> isdigit c) \<longrightarrow> extract_answer r = PStr (strip r))
   \<and> ((\<forall>c\<in>set l. isspace c) \<and> (\<forall>c\<in>set t. isspace c) \<and>
      (m = [] \<or> (\<not> isspace (hd m) \<and> \<not> isspace (last m)))
    \<longrightarrow> strip (l @ m @ t) = m)"
proof -
  have one: "extract_answer (pre @ sign @ ds @ rest) =
         PInt (if sign = ''-'' then - int (digits_val ds) else int (digits_val ds))"
    if "no_earlier_match pre sign" "sign = [] \<or> sign = ''-''" "ds \<noteq> []" "\<forall>c\<in>set ds. isdigit c"
      "rest = [] \<or> (\<not> isdigit (hd rest) \<and> hd rest \<noteq> CHR ''.'')" "length ds \<le> 4300"
    using extract_answer_int_token [OF that(1-5)] that(6) by (simp add: INT_MAX_STR_DIGITS_def)
  have two: "extract_answer (pre @ sign @ ds @ rest) = PStr (strip (pre @ sign @ ds @ rest))"
    if "no_earlier_match pre sign" "sign = [] \<or> sign = ''-''" "ds \<noteq> []" "\<forall>c\<in>set ds. isdigit c"
      "rest = [] \<or> (\<not> isdigit (hd rest) \<and> hd rest \<noteq> CHR ''.'')" "4300 < length ds"
    using extract_answer_int_token [OF that(1-5)] that(6) by (simp add: INT_MAX_STR_DIGITS_def)
  show ?thesis
    using one two extract_answer_float [of pre sign ds fs rest] extract_answer_text [of r]
      strip_core [of l t m]
    by blast
qed

text \<open>
  The parts at the responses \<^verbatim>\<open>The answer is -3.5 units\<close>, \<^verbatim>\<open>42 items\<close>, a response of 4301
  digits, and \<^verbatim>\<open>no numeric value\<close> between white space.
\<close>

theorem extract_answer_coercion_witness:
  "extract_answer ''The answer is -3.5 units'' = PFloat (Finite True (7 / 2))
   \<and> extract_answer ''42 items'' = PInt 42
   \<and> extract_answer (replicate 4301 CHR ''7'') = PStr (replicate 4301 CHR ''7'')
   \<and> strip [CHR 0x20, CHR ''n'', CHR ''o'', CHR 0x0A] = ''no''
   \<and> extract_answer ([CHR 0x20, CHR 0x09] @ ''no numeric value'' @ [CHR 0x0A]) =
       PStr ''no numeric value''"
proof -
  have a: "no_earlier_match ''The answer is '' ''-''" "no_earlier_match [] []"
    by (simp_all add: no_earlier_match_def isdigit_def)
  have d: "\<forall>c\<in>set ''3''. isdigit c" "\<forall>c\<in>set ''5''. isdigit c" "\<forall>c\<in>set ''42''. isdigit c"
    "\<not> isdigit (hd '' units'')" "\<not> isdigit (hd '' items'')"
    "\<forall>c\<in>set (replicate 4301 CHR ''7''). isdigit c"
    by (simp_all add: isdigit_def)
  have nd: "\<forall>c\<in>set ([CHR 0x20, CHR 0x09] @ ''no numeric value'' @ [CHR 0x0A]). \<not> isdigit c"
    by (simp add: isdigit_def)
  have sp: "\<forall>c\<in>set [CHR 0x20, CHR 0x09]. isspace c" "\<forall>c\<in>set [CHR 0x0A]. isspace c"
    "\<forall>c\<in>set [CHR 0x20]. isspace c"
    "\<not> isspace (hd ''no numeric value'')" "\<not> isspace (last ''no numeric value'')"
    "\<not> isspace (hd ''no'')" "\<not> isspace (last ''no'')"
    "\<not> isspace (hd (replicate 4301 CHR ''7''))" "\<not> isspace (last (replicate 4301 CHR ''7''))"
    by (simp_all add: isspace_def)
  have ne: "''3'' \<noteq> []" "''-'' = [] \<or> ''-'' = ''-''" by simp_all
  have e1: "extract_answer (''The answer is '' @ ''-'' @ ''3'' @ ''.'' @ ''5'' @ '' units'') =
      PFloat (to_double (''-'' = ''-'')
        (of_nat (digits_val ''3'') + of_nat (digits_val ''5'') / of_nat (10 ^ length ''5'')))"
    using extract_answer_coercion [of "''The answer is ''" "''-''" "''3''" "'' units''" "''5''" "[]" "[]" "[]" "[]"] a d ne
    by blast
  have td: "to_double (''-'' = ''-'')
        (of_nat (digits_val ''3'') + of_nat (digits_val ''5'') / of_nat (10 ^ length ''5'')) =
      Finite True (7 / 2)"
    by (simp add: digits_val_def digit_val_def to_double_def double_seven_halves)
  have "extract_answer (''The answer is '' @ ''-'' @ ''3'' @ ''.'' @ ''5'' @ '' units'') =
      PFloat (Finite True (7 / 2))"
    using e1 by (simp only: td)
  then have w1: "extract_answer ''The answer is -3.5 units'' = PFloat (Finite True (7 / 2))"
    by simp
  have "extract_answer ([] @ [] @ ''42'' @ '' items'') = PInt (int (digits_val ''42''))"
    using extract_answer_coercion [of "[]" "[]" "''42''" "'' items''" "[]" "[]" "[]" "[]" "[]"] a d
    by simp
  then have w2: "extract_answer ''42 items'' = PInt 42"
    by (simp add: digits_val_def digit_val_def)
  have "extract_answer ([] @ [] @ replicate 4301 CHR ''7'' @ []) =
      PStr (strip ([] @ [] @ replicate 4301 CHR ''7'' @ []))"
    using extract_answer_coercion [of "[]" "[]" "replicate 4301 CHR ''7''" "[]" "[]" "[]" "[]" "[]" "[]"] a d
    by simp
  moreover have "strip ([] @ replicate 4301 CHR ''7'' @ []) = replicate 4301 CHR ''7''"
    using extract_answer_coercion [of "[]" "[]" "[]" "[]" "[]" "[]" "[]" "[]" "replicate 4301 CHR ''7''"] sp
    by simp
  ultimately have w3: "extract_answer (replicate 4301 CHR ''7'') = PStr (replicate 4301 CHR ''7'')"
    by simp
  have w4: "strip ([CHR 0x20] @ ''no'' @ [CHR 0x0A]) = ''no''"
    using extract_answer_coercion [of "[]" "[]" "[]" "[]" "[]" "[]" "[CHR 0x20]" "[CHR 0x0A]" "''no''"] sp
    by blast
  have "extract_answer ([CHR 0x20, CHR 0x09] @ ''no numeric value'' @ [CHR 0x0A]) =
      PStr (strip ([CHR 0x20, CHR 0x09] @ ''no numeric value'' @ [CHR 0x0A]))"
    using extract_answer_coercion [of "[]" "[]" "[]" "[]" "[]"
        "[CHR 0x20, CHR 0x09] @ ''no numeric value'' @ [CHR 0x0A]" "[]" "[]" "[]"] nd
    by blast
  moreover have "strip ([CHR 0x20, CHR 0x09] @ ''no numeric value'' @ [CHR 0x0A]) = ''no numeric value''"
    using extract_answer_coercion [of "[]" "[]" "[]" "[]" "[]" "[]" "[CHR 0x20, CHR 0x09]" "[CHR 0x0A]"
        "''no numeric value''"] sp
    by blast
  ultimately have w5: "extract_answer ([CHR 0x20, CHR 0x09] @ ''no numeric value'' @ [CHR 0x0A]) =
      PStr ''no numeric value''"
    by simp
  from w4 have w4': "strip [CHR 0x20, CHR ''n'', CHR ''o'', CHR 0x0A] = ''no''" by simp
  show ?thesis using w1 w2 w3 w4' w5 by blast
qed

text \<open>
  Claim C4 as stated fails at a response of 4301 digits: a number-shaped token without a
  decimal point is found, and what is returned is not the integer but the response itself.
\<close>

theorem extract_answer_counterexample:
  "search_number (replicate 4301 CHR ''7'') = Some (replicate 4301 CHR ''7'')
   \<and> CHR ''.'' \<notin> set (replicate 4301 CHR ''7'')
   \<and> extract_answer (replicate 4301 CHR ''7'') \<noteq>
       PInt (int (digits_val (replicate 4301 CHR ''7'')))"
proof -
  have d: "\<forall>c\<in>set (replicate 4301 CHR ''7''). isdigit c" by (simp add: isdigit_def)
  have ne: "replicate 4301 CHR ''7'' \<noteq> []" by simp
  have "match_number_at ([] @ replicate 4301 CHR ''7'' @ []) = Some ([] @ replicate 4301 CHR ''7'')"
    using d ne by (intro match_int_token) simp_all
  then have s: "search_number (replicate 4301 CHR ''7'') = Some (replicate 4301 CHR ''7'')"
    by (simp add: search_number_hit)
  have "int_of_token (replicate 4301 CHR ''7'') = None"
    using int_of_token_pos [OF ne d] by (simp add: INT_MAX_STR_DIGITS_def)
  with s have "extract_answer (replicate 4301 CHR ''7'') = PStr (strip (replicate 4301 CHR ''7''))"
    by (simp add: extract_answer_def)
  with s show ?thesis by simp
qed

section \<open>Classification\<close>

text \<open>
  Claim C3.  The kind stored by \<open>extract_question_info\<close> is the kind of the first rule of
  \<open>kind_rules\<close> one of whose keywords occurs in the lower-cased page text, and \<open>General\<close> when
  no rule applies.  In particular a text whose lower-cased form contains \<^verbatim>\<open>api\<close> and \<^verbatim>\<open>pdf\<close>
  but neither \<^verbatim>\<open>download\<close> nor \<^verbatim>\<open>file\<close> is classified as \<open>Api_fetch\<close>.
\<close>

theorem question_type_first_match:
  "qtype (extract_question_info t h) = classify_spec t
   \<and> (py_in ''api'' (lower t) \<and> py_in ''pdf'' (lower t) \<and>
      \<not> py_in ''download'' (lower t) \<and> \<not> py_in ''file'' (lower t)
      \<longrightarrow> qtype (extract_question_info t h) = Api_fetch)"
  by (simp add: extract_question_info_def question_type_def classify_spec_def kind_rules_def Let_def)

theorem question_type_first_match_witness:
  "py_in ''api'' (lower ''Call the API and read the PDF'')
   \<and> py_in ''pdf'' (lower ''Call the API and read the PDF'')
   \<and> \<not> py_in ''download'' (lower ''Call the API and read the PDF'')
   \<and> \<not> py_in ''file'' (lower ''Call the API and read the PDF'')
   \<and> qtype (extract_question_info ''Call the API and read the PDF'' []) = Api_fetch
   \<and> classify_spec ''Call the API and read the PDF'' = Api_fetch"
proof -
  have l: "lower ''Call the API and read the PDF'' = ''call the api and read the pdf''"
    by (simp add: lower_def lower_char_def uppers_def lowers_def)
  have h: "py_in ''api'' (lower ''Call the API and read the PDF'')"
    "py_in ''pdf'' (lower ''Call the API and read the PDF'')"
    "\<not> py_in ''download'' (lower ''Call the API and read the PDF'')"
    "\<not> py_in ''file'' (lower ''Call the API and read the PDF'')"
    unfolding l by simp_all
  have "qtype (extract_question_info ''Call the API and read the PDF'' []) = Api_fetch"
    and "classify_spec ''Call the API and read the PDF'' = Api_fetch"
    using h question_type_first_match [of "''Call the API and read the PDF''" "[]"] by metis+
  with h show ?thesis by blast
qed


section \<open>Submission\<close>

lemma post_once_not_200: "\<not> status_200 (client_post env t u p) \<Longrightarrow> post_once env t u p a = None"
  by (auto simp: post_once_def status_200_def split: sum.splits prod.splits)

lemma post_once_200:
  "client_post env t u p = Inr (200, Inr (PDict d)) \<Longrightarrow>
   post_once env t u p a =
     Some \<lparr> url = payload_url p, answer = Some (payload_answer p),
            correct = dict_get d ''correct'' (PBool False),
            next_url = Some (dict_get d ''url'' PNone),
            reason = Some (dict_get d ''reason'' PNone),
            attempt = Some (int a + 1), error = None \<rparr>"
  by (simp add: post_once_def)

lemma submit_attempts_skip:
  "\<forall>j<k. post_once env (t + 2 * j) u p (a + j) = None \<Longrightarrow> a + k < m \<Longrightarrow>
   submit_attempts env u p m [a..<m] t = submit_attempts env u p m [a + k..<m] (t + 2 * k)"
proof (induction k arbitrary: a t)
  case 0
  then show ?case by simp
next
  case (Suc k)
  have first: "post_once env t u p a = None" using Suc.prems(1) by force
  have lt: "a < m" "int a < int m - 1" using Suc.prems(2) by auto
  have "\<forall>j<k. post_once env (Suc (Suc t) + 2 * j) u p (Suc a + j) = None"
  proof (intro allI impI)
    fix j assume "j < k"
    then have "post_once env (t + 2 * Suc j) u p (a + Suc j) = None"
      using Suc.prems(1) by auto
    then show "post_once env (Suc (Suc t) + 2 * j) u p (Suc a + j) = None" by simp
  qed
  moreover have "Suc a + k < m" using Suc.prems(2) by simp
  ultimately have "submit_attempts env u p m [Suc a..<m] (Suc (Suc t)) =
      submit_attempts env u p m [Suc a + k..<m] (Suc (Suc t) + 2 * k)"
    by (rule Suc.IH)
  then show ?case using first lt by (simp add: upt_conv_Cons)
qed

lemma submit_attempts_hit:
  "post_once env t u p a = Some r \<Longrightarrow> a < m \<Longrightarrow>
   submit_attempts env u p m [a..<m] t = (Some r, Suc t)"
  by (simp add: upt_conv_Cons)

lemma submit_attempts_last:
  "post_once env t u p a = None \<Longrightarrow> Suc a = m \<Longrightarrow>
   submit_attempts env u p m [a..<m] t = (None, Suc t)"
  by (auto simp: upt_conv_Cons)

lemma submit_attempts_exhausted:
  assumes "\<forall>j<m. post_once env (t + 2 * j) u p j = None"
  shows "submit_attempts env u p m [0..<m] t = (None, t + (2 * m - 1))"
proof (cases m)
  case 0
  then show ?thesis by simp
next
  case (Suc k)
  have "\<forall>j<k. post_once env (t + 2 * j) u p (0 + j) = None" using assms Suc by simp
  moreover have "0 + k < m" using Suc by simp
  ultimately have "submit_attempts env u p m [0..<m] t =
      submit_attempts env u p m [0 + k..<m] (t + 2 * k)"
    by (rule submit_attempts_skip)
  moreover have "post_once env (t + 2 * k) u p k = None" using assms Suc by simp
  then have "submit_attempts env u p m [k..<m] (t + 2 * k) = (None, Suc (t + 2 * k))"
    using Suc by (intro submit_attempts_last) auto
  ultimately show ?thesis using Suc by simp
qed

lemma submit_answer_exhausted:
  assumes "\<forall>j<m. post_once env (t + 2 * j) u (payload_of self q a) j = None"
  shows "submit_answer self env t u q a m =
     (\<lparr> url = q, answer = Some a, correct = PBool False, next_url = None, reason = None,
        attempt = None, error = Some ''Failed to submit after retries'' \<rparr>, t + (2 * m - 1))"
  using submit_attempts_exhausted [OF assms]
  by (simp add: submit_answer_def payload_of_def)

lemma submit_answer_200:
  assumes "k < m" "\<forall>j<k. post_once env (t + 2 * j) u (payload_of self q a) j = None"
    and "client_post env (t + 2 * k) u (payload_of self q a) = Inr (200, Inr (PDict d))"
  shows "submit_answer self env t u q a m =
     (\<lparr> url = q, answer = Some a, correct = dict_get d ''correct'' (PBool False),
        next_url = Some (dict_get d ''url'' PNone), reason = Some (dict_get d ''reason'' PNone),
        attempt = Some (int k + 1), error = None \<rparr>, Suc (t + 2 * k))"
proof -
  let ?p = "payload_of self q a"
  have "\<forall>j<k. post_once env (t + 2 * j) u ?p (0 + j) = None" using assms(2) by simp
  moreover have "0 + k < m" using assms(1) by simp
  ultimately have "submit_attempts env u ?p m [0..<m] t =
      submit_attempts env u ?p m [0 + k..<m] (t + 2 * k)"
    by (rule submit_attempts_skip)
  moreover have "submit_attempts env u ?p m [k..<m] (t + 2 * k) =
      (Some \<lparr> url = payload_url ?p, answer = Some (payload_answer ?p),
            correct = dict_get d ''correct'' (PBool False),
            next_url = Some (dict_get d ''url'' PNone),
            reason = Some (dict_get d ''reason'' PNone),
            attempt = Some (int k + 1), error = None \<rparr>, Suc (t + 2 * k))"
    using post_once_200 [OF assms(3)] assms(1) by (intro submit_attempts_hit) auto
  ultimately show ?thesis
    by (simp add: submit_answer_def payload_of_def)
qed


section \<open>Claims about submission\<close>

text \<open>
  Claim C5, as amended.  When none of the \<open>max_retries\<close> requests is answered with status 200,
  \<open>submit_answer\<close> returns a result with \<open>correct\<close> false and the error
  \<^verbatim>\<open>Failed to submit after retries\<close>; the result has no attempt count.  Attempt \<open>k\<close> is posted at
  tick \<open>t + 2 * k\<close>, and the tick returned shows that \<open>max_retries\<close> requests and the pauses
  between them have been made.
\<close>

theorem submit_exhausted:
  assumes "\<forall>k<max_retries.
      \<not> status_200 (client_post env (t + 2 * k) submit_to (payload_of self quiz_url answer_value))"
  shows "submit_answer self env t submit_to quiz_url answer_value max_retries =
     (\<lparr> url = quiz_url, answer = Some answer_value, correct = PBool False, next_url = None,
        reason = None, attempt = None, error = Some ''Failed to submit after retries'' \<rparr>,
      t + (2 * max_retries - 1))"
proof (rule submit_answer_exhausted)
  show "\<forall>j<max_retries.
      post_once env (t + 2 * j) submit_to (payload_of self quiz_url answer_value) j = None"
    using assms by (simp add: post_once_not_200)
qed

text \<open>An endpoint that answers 500 to each of three attempts.\<close>

theorem submit_exhausted_witness:
  "\<not> status_200 (client_post always_500 0 ''http://quiz/submit''
       (payload_of student (PStr ''http://quiz/1'') (PInt 42)))
   \<and> \<not> status_200 (client_post always_500 2 ''http://quiz/submit''
       (payload_of student (PStr ''http://quiz/1'') (PInt 42)))
   \<and> \<not> status_200 (client_post always_500 4 ''http://quiz/submit''
       (payload_of student (PStr ''http://quiz/1'') (PInt 42)))
   \<and> submit_answer student always_500 0 ''http://quiz/submit'' (PStr ''http://quiz/1'') (PInt 42) 3 =
     (\<lparr> url = PStr ''http://quiz/1'', answer = Some (PInt 42), correct = PBool False,
        next_url = None, reason = None, attempt = None,
        error = Some ''Failed to submit after retries'' \<rparr>, 5)"
proof -
  have n: "\<not> status_200 (client_post always_500 i ''http://quiz/submit''
       (payload_of student (PStr ''http://quiz/1'') (PInt 42)))" for i
    by (simp add: always_500_def offline_def status_200_def)
  have h: "\<forall>k<3. \<not> status_200 (client_post always_500 (0 + 2 * k) ''http://quiz/submit''
       (payload_of student (PStr ''http://quiz/1'') (PInt 42)))"
    using n by simp
  show ?thesis
    using n submit_exhausted [OF h] by simp
qed

text \<open>
  Claim C5 as stated fails at the same endpoint: the error is not
  \<^verbatim>\<open>submission failed after retries\<close>, and there is no attempt count 3.
\<close>

theorem submit_exhausted_counterexample:
  "\<not> (correct (fst (submit_answer student always_500 0 ''http://quiz/submit''
                      (PStr ''http://quiz/1'') (PInt 42) 3)) = PBool False
      \<and> error (fst (submit_answer student always_500 0 ''http://quiz/submit''
                      (PStr ''http://quiz/1'') (PInt 42) 3)) = Some ''submission failed after retries''
      \<and> attempt (fst (submit_answer student always_500 0 ''http://quiz/submit''
                      (PStr ''http://quiz/1'') (PInt 42) 3)) = Some 3)"
  by (simp add: submit_answer_def post_once_def always_500_def offline_def upt_rec)

lemma post_once_not_object:
  assumes "client_post env t u p = Inr (200, b)" "\<forall>d. b \<noteq> Inr (PDict d)"
  shows "post_once env t u p a = None"
proof (cases b)
  case (Inl e)
  with assms(1) show ?thesis by (simp add: post_once_def)
next
  case (Inr v)
  with assms(2) have "\<forall>d. v \<noteq> PDict d" by simp
  with assms(1) Inr show ?thesis by (cases v) (simp_all add: post_once_def)
qed

text \<open>
  Claim C6, as amended.  When attempt \<open>k\<close> (counted from 0, so the attempt number is \<open>k + 1\<close>) is
  the first that is answered with status 200 and a body that parses to a JSON object,
  \<open>submit_answer\<close> returns at once, at the tick after that request: the result has the \<open>correct\<close>
  value of the body, its \<open>url\<close> as next URL, its \<open>reason\<close>, and the attempt number \<open>k + 1\<close>.  An
  attempt answered with status 200 and a body that is not a JSON object does not return: it
  counts as failed, and when every attempt fails the result is the one of exhausted retries.
\<close>

theorem submit_returns_on_200:
  "(k < max_retries
      \<and> (\<forall>j<k. post_once env (t + 2 * j) submit_to (payload_of self quiz_url answer_value) j = None)
      \<and> client_post env (t + 2 * k) submit_to (payload_of self quiz_url answer_value) =
            Inr (200, Inr (PDict body))
    \<longrightarrow> submit_answer self env t submit_to quiz_url answer_value max_retries =
         (\<lparr> url = quiz_url, answer = Some answer_value,
            correct = dict_get body ''correct'' (PBool False),
            next_url = Some (dict_get body ''url'' PNone),
            reason = Some (dict_get body ''reason'' PNone),
            attempt = Some (int k + 1), error = None \<rparr>, Suc (t + 2 * k)))
   \<and> (client_post env t submit_to p = Inr (200, b) \<and> (\<forall>d. b \<noteq> Inr (PDict d))
    \<longrightarrow> post_once env t submit_to p a = None)
   \<and> ((\<forall>j<max_retries.
          post_once env (t + 2 * j) submit_to (payload_of self quiz_url answer_value) j = None)
    \<longrightarrow> submit_answer self env t submit_to quiz_url answer_value max_retries =
         (\<lparr> url = quiz_url, answer = Some answer_value, correct = PBool False, next_url = None,
            reason = None, attempt = None, error = Some ''Failed to submit after retries'' \<rparr>,
          t + (2 * max_retries - 1)))"
  using submit_answer_200 [of k max_retries env t submit_to self quiz_url answer_value body]
    post_once_not_object [of env t submit_to p b a]
    submit_answer_exhausted [of max_retries env t submit_to self quiz_url answer_value]
  by blast

text \<open>
  An endpoint that answers 500 twice and then 200 with \<^verbatim>\<open>{"correct": true, "url": "next"}\<close>,
  and one that answers 200 with the body \<^verbatim>\<open>[]\<close> every time.
\<close>

theorem submit_returns_on_200_witness:
  "post_once third_time_lucky 0 ''http://quiz/submit''
        (payload_of student (PStr ''http://quiz/1'') (PInt 42)) 0 = None
   \<and> post_once third_time_lucky 2 ''http://quiz/submit''
        (payload_of student (PStr ''http://quiz/1'') (PInt 42)) 1 = None
   \<and> client_post third_time_lucky 4 ''http://quiz/submit''
        (payload_of student (PStr ''http://quiz/1'') (PInt 42)) =
      Inr (200, Inr (PDict [(''correct'', PBool True), (''url'', PStr ''next'')]))
   \<and> submit_answer student third_time_lucky 0 ''http://quiz/submit'' (PStr ''http://quiz/1'') (PInt 42) 3 =
     (\<lparr> url = PStr ''http://quiz/1'', answer = Some (PInt 42), correct = PBool True,
        next_url = Some (PStr ''next''), reason = Some PNone, attempt = Some 3, error = None \<rparr>, 5)
   \<and> client_post list_body_server 0 ''http://quiz/submit''
        (payload_of student (PStr ''http://quiz/1'') (PInt 42)) = Inr (200, Inr (PList []))
   \<and> post_once list_body_server 0 ''http://quiz/submit''
        (payload_of student (PStr ''http://quiz/1'') (PInt 42)) 0 = None
   \<and> submit_answer student list_body_server 0 ''http://quiz/submit'' (PStr ''http://quiz/1'') (PInt 42) 3 =
     (\<lparr> url = PStr ''http://quiz/1'', answer = Some (PInt 42), correct = PBool False,
        next_url = None, reason = None, attempt = None,
        error = Some ''Failed to submit after retries'' \<rparr>, 5)"
proof -
  let ?p = "payload_of student (PStr ''http://quiz/1'') (PInt 42)"
  have a: "(2::nat) < 3" by simp
  have b0: "post_once third_time_lucky 0 ''http://quiz/submit'' ?p 0 = None"
    and b1: "post_once third_time_lucky 2 ''http://quiz/submit'' ?p 1 = None"
    by (simp_all add: post_once_def third_time_lucky_def offline_def)
  have b: "\<forall>j<2. post_once third_time_lucky (0 + 2 * j) ''http://quiz/submit'' ?p j = None"
  proof (intro allI impI)
    fix j :: nat assume "j < 2"
    then have "j = 0 \<or> j = 1" by auto
    then show "post_once third_time_lucky (0 + 2 * j) ''http://quiz/submit'' ?p j = None"
      using b0 b1 by auto
  qed
  have c: "client_post third_time_lucky (0 + 2 * 2) ''http://quiz/submit'' ?p =
      Inr (200, Inr (PDict [(''correct'', PBool True), (''url'', PStr ''next'')]))"
    by (simp add: third_time_lucky_def offline_def)
  have r1: "submit_answer student third_time_lucky 0 ''http://quiz/submit''
      (PStr ''http://quiz/1'') (PInt 42) 3 =
     (\<lparr> url = PStr ''http://quiz/1'', answer = Some (PInt 42), correct = PBool True,
        next_url = Some (PStr ''next''), reason = Some PNone, attempt = Some 3, error = None \<rparr>, 5)"
    using a b c submit_returns_on_200 [of 2 3 third_time_lucky 0 "''http://quiz/submit''" student
        "PStr ''http://quiz/1''" "PInt 42" "[(''correct'', PBool True), (''url'', PStr ''next'')]"]
    by (simp add: dict_get_def)
  have l: "client_post list_body_server i ''http://quiz/submit'' ?p = Inr (200, Inr (PList []))" for i
    by (simp add: list_body_server_def offline_def)
  have nd: "\<forall>d. (Inr (PList []) :: exn + pyval) \<noteq> Inr (PDict d)" by simp
  have none: "post_once list_body_server i ''http://quiz/submit'' ?p j = None" for i j
    using l [of i] nd submit_returns_on_200 [where env = list_body_server and t = i
        and submit_to = "''http://quiz/submit''" and p = ?p and b = "Inr (PList [])" and a = j]
    by blast
  have all: "\<forall>j<3. post_once list_body_server (0 + 2 * j) ''http://quiz/submit'' ?p j = None"
    using none by simp
  have r2: "submit_answer student list_body_server 0 ''http://quiz/submit''
      (PStr ''http://quiz/1'') (PInt 42) 3 =
     (\<lparr> url = PStr ''http://quiz/1'', answer = Some (PInt 42), correct = PBool False,
        next_url = None, reason = None, attempt = None,
        error = Some ''Failed to submit after retries'' \<rparr>, 0 + (2 * 3 - 1))"
    using all submit_returns_on_200 [where env = list_body_server and t = 0 and max_retries = 3
        and submit_to = "''http://quiz/submit''" and self = student
        and quiz_url = "PStr ''http://quiz/1''" and answer_value = "PInt 42"]
    by blast
  then have r2': "submit_answer student list_body_server 0 ''http://quiz/submit''
      (PStr ''http://quiz/1'') (PInt 42) 3 =
     (\<lparr> url = PStr ''http://quiz/1'', answer = Some (PInt 42), correct = PBool False,
        next_url = None, reason = None, attempt = None,
        error = Some ''Failed to submit after retries'' \<rparr>, 5)"
    by simp
  have c': "client_post third_time_lucky 4 ''http://quiz/submit'' ?p =
      Inr (200, Inr (PDict [(''correct'', PBool True), (''url'', PStr ''next'')]))"
    using c by simp
  show ?thesis using b0 b1 c' r1 l [of 0] none [of 0 0] r2' by blast
qed

text \<open>
  Claim C6 as stated fails at the endpoint that answers 200 with the body \<^verbatim>\<open>[]\<close>: the first
  attempt receives status 200, and \<open>submit_answer\<close> does not return on it with attempt
  number 1 but makes all three attempts and reports the failure.
\<close>

theorem submit_returns_on_200_counterexample:
  "status_200 (client_post list_body_server 0 ''http://quiz/submit''
       (payload_of student (PStr ''http://quiz/1'') (PInt 42)))
   \<and> attempt (fst (submit_answer student list_body_server 0 ''http://quiz/submit''
         (PStr ''http://quiz/1'') (PInt 42) 3)) \<noteq> Some 1
   \<and> submit_answer student list_body_server 0 ''http://quiz/submit'' (PStr ''http://quiz/1'') (PInt 42) 3 =
     (\<lparr> url = PStr ''http://quiz/1'', answer = Some (PInt 42), correct = PBool False,
        next_url = None, reason = None, attempt = None,
        error = Some ''Failed to submit after retries'' \<rparr>, 5)"
  by (simp add: submit_answer_def post_once_def list_body_server_def offline_def status_200_def
      payload_of_def upt_rec)


section \<open>The loop\<close>

lemma run_solve_loop:
  "run k self env start s0 = Some s \<Longrightarrow>
   solve_loop (k + n) self env start s0 = solve_loop n self env start s"
proof (induction k arbitrary: s0)
  case 0
  then show ?case by simp
next
  case (Suc k)
  then show ?case by (cases "loop_step self env start s0") auto
qed

lemma loop_step_deadline:
  "truthy (current_url s) \<Longrightarrow> now env (tick s) - start > max_time \<Longrightarrow>
   loop_step self env start s = Break (results s) (Suc (tick s))"
  by (simp add: loop_step_def)

lemma loop_step_stop:
  assumes "truthy (current_url s)" "\<not> now env (tick s) - start > max_time"
    and "solve_single_quiz self env (Suc (tick s)) (current_url s) = (r, t1)"
    and "\<not> truthy (get_next_url r)"
  shows "loop_step self env start s = Break (results s @ [r]) t1"
  using assms by (simp add: loop_step_def Let_def)

lemma loop_step_go:
  assumes "truthy (current_url s)" "\<not> now env (tick s) - start > max_time"
    and "solve_single_quiz self env (Suc (tick s)) (current_url s) = (r, t1)"
    and "truthy (get_next_url r)"
  shows "loop_step self env start s =
     Continue \<lparr> tick = t1, current_url = get_next_url r, results = results s @ [r] \<rparr>"
  using assms by (simp add: loop_step_def Let_def)

lemma solve_quiz_from:
  assumes "browser_start env 1 = None"
    and "run k self env (now env 0) (initial_state u0) = Some s"
    and "loop_step self env (now env 0) s = Break rs t"
  shows "solve_quiz (Suc (k + n)) self env u0 =
     Some \<lparr> success = True, summary_results = rs,
            total_time = Some (now env t - now env 0), summary_error = None \<rparr>"
proof -
  have "solve_loop (k + Suc n) self env (now env 0) (initial_state u0) =
        solve_loop (Suc n) self env (now env 0) s"
    using assms(2) by (rule run_solve_loop)
  then have "solve_loop (Suc (k + n)) self env (now env 0) (initial_state u0) = Some (rs, t)"
    using assms(3) by simp
  then show ?thesis using assms(1) by (simp add: solve_quiz_def Let_def)
qed

lemma solve_single_quiz_raise:
  "solve_single_quiz_try self env t u = (Inl (Exception msg), t1) \<Longrightarrow>
   solve_single_quiz self env t u =
     (\<lparr> url = u, answer = None, correct = PBool False, next_url = None, reason = None,
        attempt = None, error = Some msg \<rparr>, t1)"
  by (simp add: solve_single_quiz_def)

lemma solve_single_quiz_ok:
  "solve_single_quiz_try self env t u = (Inr r, t1) \<Longrightarrow> solve_single_quiz self env t u = (r, t1)"
  by (simp add: solve_single_quiz_def)

lemma solve_quiz_success:
  assumes "solve_quiz fuel self env u0 = Some sm"
  shows "(success sm \<longleftrightarrow> browser_start env 1 = None) \<and> (\<not> success sm \<longrightarrow> summary_results sm = [])"
proof (cases "browser_start env 1")
  case (Some e)
  obtain msg where "e = Exception msg" by (cases e)
  with Some assms have "sm = \<lparr> success = False, summary_results = [], total_time = None,
      summary_error = Some msg \<rparr>"
    by (simp add: solve_quiz_def)
  with Some show ?thesis by simp
next
  case None
  show ?thesis
  proof (cases "solve_loop fuel self env (now env 0) (initial_state u0)")
    case nothing: None
    with None assms show ?thesis by (simp add: solve_quiz_def)
  next
    case (Some out)
    obtain rs t where "out = (rs, t)" by (cases out)
    with None Some assms have "sm = \<lparr> success = True, summary_results = rs,
        total_time = Some (now env t - now env 0), summary_error = None \<rparr>"
      by (simp add: solve_quiz_def)
    with None show ?thesis by simp
  qed
qed

lemma step_failure_session:
  assumes "browser_start env 1 = None"
    and "run k self env (now env 0) (initial_state u0) = Some s"
    and "truthy (current_url s)"
    and "\<not> now env (tick s) - now env 0 > max_time"
    and "solve_single_quiz_try self env (Suc (tick s)) (current_url s) = (Inl (Exception msg), t1)"
  shows "solve_quiz (Suc (k + n)) self env u0 =
     Some \<lparr> success = True,
            summary_results = results s @
              [\<lparr> url = current_url s, answer = None, correct = PBool False, next_url = None,
                 reason = None, attempt = None, error = Some msg \<rparr>],
            total_time = Some (now env t1 - now env 0), summary_error = None \<rparr>"
proof -
  let ?r = "\<lparr> url = current_url s, answer = None, correct = PBool False, next_url = None,
                 reason = None, attempt = None, error = Some msg \<rparr>"
  have "solve_single_quiz self env (Suc (tick s)) (current_url s) = (?r, t1)"
    using assms(5) by (rule solve_single_quiz_raise)
  moreover have "\<not> truthy (get_next_url ?r)" by (simp add: get_next_url_def)
  ultimately have "loop_step self env (now env 0) s = Break (results s @ [?r]) t1"
    using assms(3,4) by (intro loop_step_stop)
  with assms(1,2) show ?thesis by (rule solve_quiz_from)
qed

section \<open>Claims about the orchestrator\<close>

text \<open>
  Claim C1, as amended.  When a session has reached the head of the loop after \<open>k\<close> completed
  steps, the current URL is present, the deadline has not passed, and a call in the body of the
  step for the current URL raises, then the session ends there: its history is the history so
  far followed by a failed result for the current URL, with \<open>correct\<close> false and the message of
  the exception as \<open>error\<close>, and the summary reports \<open>success = True\<close>.  A summary reports
  \<open>success = False\<close> exactly when the browser could not be started, and its history is then
  empty.
\<close>

theorem step_failure_recorded:
  "(browser_start env 1 = None
      \<and> run k self env (now env 0) (initial_state u0) = Some s
      \<and> truthy (current_url s)
      \<and> \<not> now env (tick s) - now env 0 > max_time
      \<and> solve_single_quiz_try self env (Suc (tick s)) (current_url s) = (Inl (Exception msg), t1)
    \<longrightarrow> solve_quiz (Suc (k + n)) self env u0 =
         Some \<lparr> success = True,
                summary_results = results s @
                  [\<lparr> url = current_url s, answer = None, correct = PBool False, next_url = None,
                     reason = None, attempt = None, error = Some msg \<rparr>],
                total_time = Some (now env t1 - now env 0), summary_error = None \<rparr>)
   \<and> (solve_quiz fuel self env u0 = Some sm
    \<longrightarrow> (success sm \<longleftrightarrow> browser_start env 1 = None)
        \<and> (\<not> success sm \<longrightarrow> summary_results sm = []))"
  using step_failure_session [of env k self u0 s msg t1 n] solve_quiz_success [of fuel self env u0 sm]
  by blast


lemma quiz_server_run:
  "run 1 student quiz_server (now quiz_server 0) (initial_state ''http://quiz/1'') =
     Some \<lparr> tick = 7, current_url = PStr ''http://quiz/2'',
            results = [\<lparr> url = PStr ''http://quiz/1'', answer = Some (PInt 42), correct = PBool True,
                         next_url = Some (PStr ''http://quiz/2''), reason = Some PNone,
                         attempt = Some 1, error = None \<rparr>] \<rparr>"
  by code_simp

lemma quiz_server_second_page:
  "solve_single_quiz_try student quiz_server 8 (PStr ''http://quiz/2'') =
     (Inl (Exception ''page not found''), 9)"
  by code_simp

text \<open>
  A session whose first page is solved and accepted and whose second page does not load.
\<close>

theorem step_failure_recorded_witness:
  "browser_start quiz_server 1 = None
   \<and> run 1 student quiz_server (now quiz_server 0) (initial_state ''http://quiz/1'') =
       Some \<lparr> tick = 7, current_url = PStr ''http://quiz/2'',
              results = [\<lparr> url = PStr ''http://quiz/1'', answer = Some (PInt 42),
                           correct = PBool True, next_url = Some (PStr ''http://quiz/2''),
                           reason = Some PNone, attempt = Some 1, error = None \<rparr>] \<rparr>
   \<and> \<not> now quiz_server 7 - now quiz_server 0 > max_time
   \<and> solve_single_quiz_try student quiz_server 8 (PStr ''http://quiz/2'') =
       (Inl (Exception ''page not found''), 9)
   \<and> solve_quiz 2 student quiz_server ''http://quiz/1'' =
       Some \<lparr> success = True,
              summary_results =
                [\<lparr> url = PStr ''http://quiz/1'', answer = Some (PInt 42), correct = PBool True,
                    next_url = Some (PStr ''http://quiz/2''), reason = Some PNone,
                    attempt = Some 1, error = None \<rparr>,
                 \<lparr> url = PStr ''http://quiz/2'', answer = None, correct = PBool False,
                    next_url = None, reason = None, attempt = None,
                    error = Some ''page not found'' \<rparr>],
              total_time = Some 0, summary_error = None \<rparr>
   \<and> solve_quiz 1 student no_browser ''http://quiz/1'' =
       Some \<lparr> success = False, summary_results = [], total_time = None,
              summary_error = Some ''no browser'' \<rparr>
   \<and> browser_start no_browser 1 \<noteq> None"
proof -
  let ?s = "\<lparr> tick = 7, current_url = PStr ''http://quiz/2'',
              results = [\<lparr> url = PStr ''http://quiz/1'', answer = Some (PInt 42),
                           correct = PBool True, next_url = Some (PStr ''http://quiz/2''),
                           reason = Some PNone, attempt = Some 1, error = None \<rparr>] \<rparr>"
  have a: "browser_start quiz_server 1 = None"
    by (simp add: quiz_server_def offline_def)
  have b: "run 1 student quiz_server (now quiz_server 0) (initial_state ''http://quiz/1'') = Some ?s"
    by (rule quiz_server_run)
  have c: "truthy (current_url ?s)" by simp
  have d: "\<not> now quiz_server (tick ?s) - now quiz_server 0 > max_time"
    by (simp add: quiz_server_def offline_def max_time_def MAX_QUIZ_TIME_SECONDS_def)
  have e: "solve_single_quiz_try student quiz_server (Suc (tick ?s)) (current_url ?s) =
      (Inl (Exception ''page not found''), 9)"
    using quiz_server_second_page by simp
  have n: "now quiz_server 9 - now quiz_server 0 = 0"
    by (simp add: quiz_server_def offline_def)
  have main: "solve_quiz 2 student quiz_server ''http://quiz/1'' =
       Some \<lparr> success = True,
              summary_results =
                [\<lparr> url = PStr ''http://quiz/1'', answer = Some (PInt 42), correct = PBool True,
                    next_url = Some (PStr ''http://quiz/2''), reason = Some PNone,
                    attempt = Some 1, error = None \<rparr>,
                 \<lparr> url = PStr ''http://quiz/2'', answer = None, correct = PBool False,
                    next_url = None, reason = None, attempt = None,
                    error = Some ''page not found'' \<rparr>],
              total_time = Some 0, summary_error = None \<rparr>"
    using a b c d e n step_failure_recorded [of quiz_server 1 student "''http://quiz/1''" ?s
        "''page not found''" 9 0]
    by (simp add: numeral_2_eq_2)
  have d': "\<not> now quiz_server 7 - now quiz_server 0 > max_time" using d by simp
  let ?sm = "\<lparr> success = False, summary_results = [], total_time = None,
              summary_error = Some ''no browser'' \<rparr>"
  have nb: "solve_quiz 1 student no_browser ''http://quiz/1'' = Some ?sm"
    by (simp add: solve_quiz_def no_browser_def offline_def)
  have "(success ?sm \<longleftrightarrow> browser_start no_browser 1 = None)
      \<and> (\<not> success ?sm \<longrightarrow> summary_results ?sm = [])"
    using nb step_failure_recorded [where fuel = 1 and self = student and env = no_browser
        and ?u0.0 = "''http://quiz/1''" and sm = ?sm]
    by blast
  then have nb': "browser_start no_browser 1 \<noteq> None" by simp
  show ?thesis
    using a b d' quiz_server_second_page main nb nb' by blast
qed

text \<open>
  Claim C1 as stated fails in the environment where no page loads: the step for the first
  page raises, and the summary does not report \<open>success = False\<close>.
\<close>

theorem step_failure_counterexample:
  "fst (solve_single_quiz_try student offline 3 (PStr ''http://quiz/1'')) = Inl (Exception ''offline'')
   \<and> map_option success (solve_quiz 1 student offline ''http://quiz/1'') \<noteq> Some False"
  by code_simp


subsection \<open>The clock is read at the head of the loop only\<close>

lemma solve_general_question_now:
  "solve_general_question (env\<lparr>now := f\<rparr>) t q = solve_general_question env t q"
  by (simp add: solve_general_question_def
      Let_def
      cong: if_cong sum.case_cong option.case_cong prod.case_cong pyval.case_cong kind.case_cong)

lemma analyze_with_llm_now:
  "analyze_with_llm (env\<lparr>now := f\<rparr>) t df q = analyze_with_llm env t df q"
  by (simp add: analyze_with_llm_def
      Let_def
      cong: if_cong sum.case_cong option.case_cong prod.case_cong pyval.case_cong kind.case_cong)

lemma column_of_now: "column_of (env\<lparr>now := f\<rparr>) df q = column_of env df q"
  by (simp add: column_of_def
      Let_def
      cong: if_cong sum.case_cong option.case_cong prod.case_cong pyval.case_cong kind.case_cong)

lemma analyze_dataframe_question_now:
  "analyze_dataframe_question (env\<lparr>now := f\<rparr>) t df q = analyze_dataframe_question env t df q"
  by (simp add: analyze_dataframe_question_def analyze_with_llm_now column_of_now
      Let_def
      cong: if_cong sum.case_cong option.case_cong prod.case_cong pyval.case_cong kind.case_cong)

lemma solve_pdf_file_now: "solve_pdf_file (env\<lparr>now := f\<rparr>) t b q = solve_pdf_file env t b q"
  by (simp add: solve_pdf_file_def
      Let_def
      cong: if_cong sum.case_cong option.case_cong prod.case_cong pyval.case_cong kind.case_cong)

lemma solve_csv_file_now: "solve_csv_file (env\<lparr>now := f\<rparr>) t b q = solve_csv_file env t b q"
  by (simp add: solve_csv_file_def analyze_dataframe_question_now
      Let_def
      cong: if_cong sum.case_cong option.case_cong prod.case_cong pyval.case_cong kind.case_cong)

lemma solve_json_file_now: "solve_json_file (env\<lparr>now := f\<rparr>) t b q = solve_json_file env t b q"
  by (simp add: solve_json_file_def
      Let_def
      cong: if_cong sum.case_cong option.case_cong prod.case_cong pyval.case_cong kind.case_cong)

lemma solve_file_question_now:
  "solve_file_question (env\<lparr>now := f\<rparr>) t q = solve_file_question env t q"
  by (simp add: solve_file_question_def solve_general_question_now solve_pdf_file_now
      solve_csv_file_now solve_json_file_now
      Let_def
      cong: if_cong sum.case_cong option.case_cong prod.case_cong pyval.case_cong kind.case_cong)

lemma solve_api_question_now:
  "solve_api_question (env\<lparr>now := f\<rparr>) t q = solve_api_question env t q"
  by (simp add: solve_api_question_def solve_general_question_now
      Let_def
      cong: if_cong sum.case_cong option.case_cong prod.case_cong pyval.case_cong kind.case_cong)

lemma solve_data_analysis_question_now:
  "solve_data_analysis_question (env\<lparr>now := f\<rparr>) t q = solve_data_analysis_question env t q"
  by (simp add: solve_data_analysis_question_def solve_general_question_now
      analyze_dataframe_question_now
      Let_def
      cong: if_cong sum.case_cong option.case_cong prod.case_cong pyval.case_cong kind.case_cong)

lemma dispatch_now: "dispatch (env\<lparr>now := f\<rparr>) t q = dispatch env t q"
  by (simp add: dispatch_def solve_file_question_now solve_api_question_now
      solve_pdf_question_def solve_data_analysis_question_now solve_visualization_question_def
      solve_general_question_now
      Let_def
      cong: if_cong sum.case_cong option.case_cong prod.case_cong pyval.case_cong kind.case_cong)

lemma solve_question_now: "solve_question (env\<lparr>now := f\<rparr>) t q = solve_question env t q"
  by (simp add: solve_question_def dispatch_now solve_general_question_now
      Let_def
      cong: if_cong sum.case_cong option.case_cong prod.case_cong pyval.case_cong kind.case_cong)

lemma post_once_now: "post_once (env\<lparr>now := f\<rparr>) t u p a = post_once env t u p a"
  by (simp add: post_once_def
      Let_def
      cong: if_cong sum.case_cong option.case_cong prod.case_cong pyval.case_cong kind.case_cong)

lemma submit_attempts_now:
  "submit_attempts (env\<lparr>now := f\<rparr>) u p m as t = submit_attempts env u p m as t"
  by (induction as arbitrary: t) (simp_all add: post_once_now cong: if_cong option.case_cong)

lemma submit_answer_now:
  "submit_answer self (env\<lparr>now := f\<rparr>) t u q a m = submit_answer self env t u q a m"
  by (simp add: submit_answer_def submit_attempts_now
      Let_def
      cong: if_cong sum.case_cong option.case_cong prod.case_cong pyval.case_cong kind.case_cong)

lemma solve_single_quiz_try_now:
  "solve_single_quiz_try self (env\<lparr>now := f\<rparr>) t u = solve_single_quiz_try self env t u"
  by (simp add: solve_single_quiz_try_def solve_question_now submit_answer_now
      Let_def
      cong: if_cong sum.case_cong option.case_cong prod.case_cong pyval.case_cong kind.case_cong)

lemma solve_single_quiz_now:
  "solve_single_quiz self (env\<lparr>now := f\<rparr>) t u = solve_single_quiz self env t u"
  by (simp add: solve_single_quiz_def solve_single_quiz_try_now
      Let_def
      cong: if_cong sum.case_cong option.case_cong prod.case_cong pyval.case_cong kind.case_cong)

lemma loop_step_now:
  "f (tick s) = now env (tick s) \<Longrightarrow>
   loop_step self (env\<lparr>now := f\<rparr>) start s = loop_step self env start s"
  by (simp add: loop_step_def solve_single_quiz_now
      Let_def
      cong: if_cong sum.case_cong option.case_cong prod.case_cong pyval.case_cong kind.case_cong)

lemma loop_step_begun:
  "loop_step self env start s = Continue s' \<Longrightarrow> now env (tick s) - start \<le> max_time"
  "loop_step self env start s = Break rs t \<Longrightarrow> rs \<noteq> results s \<Longrightarrow>
     now env (tick s) - start \<le> max_time"
  by (auto simp: loop_step_def Let_def split: if_splits prod.splits)

text \<open>
  Claim C2.  At the head of the loop, with the current URL present and more than \<open>max_time\<close>
  elapsed since the start, the loop ends with the history unchanged, having consulted nothing
  but the clock; a pass that goes on or that adds a result was begun within the budget; the
  pass depends on the clock through the reading at its head only, so the deadline is checked
  nowhere else; and a session that reaches such a head after \<open>k\<close> completed steps returns
  \<open>success = True\<close> with the history of those steps.
\<close>

theorem deadline_checked_at_loop_head:
  "(truthy (current_url s) \<and> now env (tick s) - start_time > max_time
      \<longrightarrow> loop_step self env start_time s = Break (results s) (Suc (tick s)))
   \<and> (loop_step self env start_time s = Continue s' \<longrightarrow> now env (tick s) - start_time \<le> max_time)
   \<and> (loop_step self env start_time s = Break rs t \<and> rs \<noteq> results s
      \<longrightarrow> now env (tick s) - start_time \<le> max_time)
   \<and> (f (tick s) = now env (tick s)
      \<longrightarrow> loop_step self (env\<lparr>now := f\<rparr>) start_time s = loop_step self env start_time s)
   \<and> (browser_start env 1 = None
      \<and> run k self env (now env 0) (initial_state initial_url) = Some s0
      \<and> truthy (current_url s0) \<and> now env (tick s0) - now env 0 > max_time
      \<longrightarrow> solve_quiz (Suc (k + n)) self env initial_url =
            Some \<lparr> success = True, summary_results = results s0,
                   total_time = Some (now env (Suc (tick s0)) - now env 0),
                   summary_error = None \<rparr>)"
proof (intro conjI impI)
  assume "truthy (current_url s) \<and> now env (tick s) - start_time > max_time"
  then show "loop_step self env start_time s = Break (results s) (Suc (tick s))"
    by (simp add: loop_step_deadline)
next
  assume "loop_step self env start_time s = Continue s'"
  then show "now env (tick s) - start_time \<le> max_time" by (rule loop_step_begun)
next
  assume "loop_step self env start_time s = Break rs t \<and> rs \<noteq> results s"
  then show "now env (tick s) - start_time \<le> max_time" using loop_step_begun(2) by blast
next
  assume "f (tick s) = now env (tick s)"
  then show "loop_step self (env\<lparr>now := f\<rparr>) start_time s = loop_step self env start_time s"
    by (rule loop_step_now)
next
  assume h: "browser_start env 1 = None
      \<and> run k self env (now env 0) (initial_state initial_url) = Some s0
      \<and> truthy (current_url s0) \<and> now env (tick s0) - now env 0 > max_time"
  then have "loop_step self env (now env 0) s0 = Break (results s0) (Suc (tick s0))"
    by (simp add: loop_step_deadline)
  with h show "solve_quiz (Suc (k + n)) self env initial_url =
            Some \<lparr> success = True, summary_results = results s0,
                   total_time = Some (now env (Suc (tick s0)) - now env 0),
                   summary_error = None \<rparr>"
    using solve_quiz_from by blast
qed

text \<open>
  The session of \<open>slow_server\<close>, whose clock shows 200 seconds when the loop comes back to its
  head after the first page; the pass from the initial state, which goes on; and the pass of
  \<open>quiz_server\<close> for the second page, which adds a result.
\<close>

theorem deadline_checked_at_loop_head_witness:
  "now slow_server 7 - now slow_server 0 > max_time
   \<and> loop_step student slow_server (now slow_server 0)
        \<lparr> tick = 7, current_url = PStr ''http://quiz/2'',
          results = [\<lparr> url = PStr ''http://quiz/1'', answer = Some (PInt 42), correct = PBool True,
                       next_url = Some (PStr ''http://quiz/2''), reason = Some PNone,
                       attempt = Some 1, error = None \<rparr>] \<rparr> =
       Break [\<lparr> url = PStr ''http://quiz/1'', answer = Some (PInt 42), correct = PBool True,
                 next_url = Some (PStr ''http://quiz/2''), reason = Some PNone,
                 attempt = Some 1, error = None \<rparr>] 8
   \<and> loop_step student slow_server (now slow_server 0) (initial_state ''http://quiz/1'') =
       Continue \<lparr> tick = 7, current_url = PStr ''http://quiz/2'',
          results = [\<lparr> url = PStr ''http://quiz/1'', answer = Some (PInt 42), correct = PBool True,
                       next_url = Some (PStr ''http://quiz/2''), reason = Some PNone,
                       attempt = Some 1, error = None \<rparr>] \<rparr>
   \<and> now slow_server (tick (initial_state ''http://quiz/1'')) - now slow_server 0 \<le> max_time
   \<and> loop_step student quiz_server (now quiz_server 0)
        \<lparr> tick = 7, current_url = PStr ''http://quiz/2'', results = [] \<rparr> =
       Break [\<lparr> url = PStr ''http://quiz/2'', answer = None, correct = PBool False,
                 next_url = None, reason = None, attempt = None,
                 error = Some ''page not found'' \<rparr>] 9
   \<and> now quiz_server 7 - now quiz_server 0 \<le> max_time
   \<and> loop_step student (slow_server\<lparr>now := now quiz_server\<rparr>) (now slow_server 0)
        (initial_state ''http://quiz/1'') =
       loop_step student slow_server (now slow_server 0) (initial_state ''http://quiz/1'')
   \<and> browser_start slow_server 1 = None
   \<and> run 1 student slow_server (now slow_server 0) (initial_state ''http://quiz/1'') =
       Some \<lparr> tick = 7, current_url = PStr ''http://quiz/2'',
          results = [\<lparr> url = PStr ''http://quiz/1'', answer = Some (PInt 42), correct = PBool True,
                       next_url = Some (PStr ''http://quiz/2''), reason = Some PNone,
                       attempt = Some 1, error = None \<rparr>] \<rparr>
   \<and> solve_quiz 2 student slow_server ''http://quiz/1'' =
       Some \<lparr> success = True,
              summary_results =
                [\<lparr> url = PStr ''http://quiz/1'', answer = Some (PInt 42), correct = PBool True,
                    next_url = Some (PStr ''http://quiz/2''), reason = Some PNone,
                    attempt = Some 1, error = None \<rparr>],
              total_time = Some 200000000, summary_error = None \<rparr>"
proof -
  let ?r = "\<lparr> url = PStr ''http://quiz/1'', answer = Some (PInt 42), correct = PBool True,
              next_url = Some (PStr ''http://quiz/2''), reason = Some PNone,
              attempt = Some 1, error = None \<rparr>"
  let ?s = "\<lparr> tick = 7, current_url = PStr ''http://quiz/2'', results = [?r] \<rparr>"
  let ?q = "\<lparr> tick = 7, current_url = PStr ''http://quiz/2'', results = [] \<rparr>"
  let ?i = "initial_state ''http://quiz/1''"
  let ?fail = "\<lparr> url = PStr ''http://quiz/2'', answer = None, correct = PBool False,
                 next_url = None, reason = None, attempt = None,
                 error = Some ''page not found'' \<rparr>"
  have late: "now slow_server (tick ?s) - now slow_server 0 > max_time"
    by (simp add: slow_server_def max_time_def MAX_QUIZ_TIME_SECONDS_def)
  have cur: "truthy (current_url ?s)" by simp
  have p1: "loop_step student slow_server (now slow_server 0) ?s = Break (results ?s) (Suc (tick ?s))"
    using late cur deadline_checked_at_loop_head [where s = ?s and env = slow_server
        and start_time = "now slow_server 0" and self = student]
    by blast
  have go: "loop_step student slow_server (now slow_server 0) ?i = Continue ?s"
    by code_simp
  have p2: "now slow_server (tick ?i) - now slow_server 0 \<le> max_time"
    using go deadline_checked_at_loop_head [where s = ?i and env = slow_server
        and start_time = "now slow_server 0" and self = student and s' = ?s]
    by blast
  have stop: "loop_step student quiz_server (now quiz_server 0) ?q = Break [?fail] 9"
    by code_simp
  have more: "[?fail] \<noteq> results ?q" by simp
  have p3: "now quiz_server (tick ?q) - now quiz_server 0 \<le> max_time"
    using stop more deadline_checked_at_loop_head [where s = ?q and env = quiz_server
        and start_time = "now quiz_server 0" and self = student and rs = "[?fail]" and t = 9]
    by blast
  have same: "now quiz_server (tick ?i) = now slow_server (tick ?i)"
    by (simp add: slow_server_def quiz_server_def offline_def initial_state_def)
  have p4: "loop_step student (slow_server\<lparr>now := now quiz_server\<rparr>) (now slow_server 0) ?i =
      loop_step student slow_server (now slow_server 0) ?i"
    using same deadline_checked_at_loop_head [where s = ?i and env = slow_server
        and start_time = "now slow_server 0" and self = student and f = "now quiz_server"]
    by blast
  have st: "browser_start slow_server 1 = None"
    by (simp add: slow_server_def quiz_server_def offline_def)
  have rn: "run 1 student slow_server (now slow_server 0) ?i = Some ?s"
    by code_simp
  have late0: "now slow_server (tick ?s) - now slow_server 0 > max_time" by (rule late)
  have p5: "solve_quiz (Suc (1 + 0)) student slow_server ''http://quiz/1'' =
      Some \<lparr> success = True, summary_results = results ?s,
             total_time = Some (now slow_server (Suc (tick ?s)) - now slow_server 0),
             summary_error = None \<rparr>"
    using st rn cur late0 deadline_checked_at_loop_head [where ?s0.0 = ?s and env = slow_server
        and self = student and k = 1 and n = 0 and initial_url = "''http://quiz/1''"]
    by blast
  have tt: "now slow_server (Suc (tick ?s)) - now slow_server 0 = 200000000"
    by (simp add: slow_server_def)
  have two: "Suc (1 + 0) = 2" by simp
  have p5': "solve_quiz 2 student slow_server ''http://quiz/1'' =
      Some \<lparr> success = True, summary_results = [?r], total_time = Some 200000000,
             summary_error = None \<rparr>"
    using p5 unfolding two tt by simp
  have late': "now slow_server 7 - now slow_server 0 > max_time" using late by simp
  have p1': "loop_step student slow_server (now slow_server 0) ?s = Break [?r] 8" using p1 by simp
  have p3': "now quiz_server 7 - now quiz_server 0 \<le> max_time" using p3 by simp
  show ?thesis
    using late' p1' go p2 stop p3' p4 st rn p5' by blast
qed


subsection \<open>A page that renders and is answered\<close>

lemma solve_single_quiz_page:
  assumes "browser_navigate env t u = Inr html_content"
    and "browser_extract_text env (Suc t) u = Inr text_content"
    and "solve_question env (Suc (Suc t)) (extract_question_info text_content html_content) =
           (Inr answer_value, t1)"
  shows "solve_single_quiz self env t u =
     (case extract_submit_url html_content of
        Some submit_to \<Rightarrow> submit_answer self env t1 submit_to u answer_value 3
      | None \<Rightarrow>
          (\<lparr> url = u, answer = Some answer_value, correct = PNone, next_url = None,
             reason = None, attempt = None, error = Some ''No submit URL found'' \<rparr>, t1))"
  using assms
  by (simp add: solve_single_quiz_def solve_single_quiz_try_def Let_def extract_question_info_def
      split: option.splits prod.splits)

text \<open>
  Claim C7, as amended.  When a session has reached the head of the loop after \<open>k\<close> completed
  steps, the current URL is present, the deadline has not passed, the page renders, an answer
  is produced and the markup of the page has no submit URL, then the session ends there: the
  history is the history so far followed by a result for the current URL with the answer,
  \<open>correct\<close> unknown (\<open>PNone\<close>) and the error \<^verbatim>\<open>No submit URL found\<close>.
\<close>

theorem no_submit_url_stops:
  assumes "browser_start env 1 = None"
    and "run k self env (now env 0) (initial_state initial_url) = Some s"
    and "truthy (current_url s)"
    and "\<not> now env (tick s) - now env 0 > max_time"
    and "browser_navigate env (Suc (tick s)) (current_url s) = Inr html_content"
    and "browser_extract_text env (Suc (Suc (tick s))) (current_url s) = Inr text_content"
    and "solve_question env (Suc (Suc (Suc (tick s))))
           (extract_question_info text_content html_content) = (Inr answer_value, t1)"
    and "extract_submit_url html_content = None"
  shows "solve_quiz (Suc (k + n)) self env initial_url =
     Some \<lparr> success = True,
            summary_results = results s @
              [\<lparr> url = current_url s, answer = Some answer_value, correct = PNone,
                 next_url = None, reason = None, attempt = None,
                 error = Some ''No submit URL found'' \<rparr>],
            total_time = Some (now env t1 - now env 0), summary_error = None \<rparr>"
proof -
  let ?r = "\<lparr> url = current_url s, answer = Some answer_value, correct = PNone,
              next_url = None, reason = None, attempt = None,
              error = Some ''No submit URL found'' \<rparr>"
  have "solve_single_quiz self env (Suc (tick s)) (current_url s) = (?r, t1)"
    using solve_single_quiz_page [OF assms(5-7)] assms(8) by simp
  moreover have "\<not> truthy (get_next_url ?r)" by (simp add: get_next_url_def)
  ultimately have "loop_step self env (now env 0) s = Break (results s @ [?r]) t1"
    using assms(3,4) by (intro loop_step_stop)
  with assms(1,2) show ?thesis by (rule solve_quiz_from)
qed

text \<open>A first page whose markup names no submit URL.\<close>

theorem no_submit_url_stops_witness:
  "browser_start no_submit_server 1 = None
   \<and> run 0 student no_submit_server (now no_submit_server 0) (initial_state ''http://quiz/1'') =
       Some (initial_state ''http://quiz/1'')
   \<and> truthy (current_url (initial_state ''http://quiz/1''))
   \<and> \<not> now no_submit_server 2 - now no_submit_server 0 > max_time
   \<and> browser_navigate no_submit_server 3 (PStr ''http://quiz/1'') = Inr ''<p>What is 6 times 7?</p>''
   \<and> browser_extract_text no_submit_server 4 (PStr ''http://quiz/1'') = Inr ''What is 6 times 7?''
   \<and> solve_question no_submit_server 5
        (extract_question_info ''What is 6 times 7?'' ''<p>What is 6 times 7?</p>'') = (Inr (PInt 42), 6)
   \<and> extract_submit_url ''<p>What is 6 times 7?</p>'' = None
   \<and> solve_quiz 1 student no_submit_server ''http://quiz/1'' =
       Some \<lparr> success = True,
              summary_results =
                [\<lparr> url = PStr ''http://quiz/1'', answer = Some (PInt 42), correct = PNone,
                    next_url = None, reason = None, attempt = None,
                    error = Some ''No submit URL found'' \<rparr>],
              total_time = Some 0, summary_error = None \<rparr>"
proof -
  let ?i = "initial_state ''http://quiz/1''"
  have a: "browser_start no_submit_server 1 = None" by code_simp
  have b: "run 0 student no_submit_server (now no_submit_server 0) ?i = Some ?i" by simp
  have c: "truthy (current_url ?i)" by (simp add: initial_state_def)
  have d: "\<not> now no_submit_server (tick ?i) - now no_submit_server 0 > max_time" by code_simp
  have e: "browser_navigate no_submit_server (Suc (tick ?i)) (current_url ?i) =
      Inr ''<p>What is 6 times 7?</p>''" by code_simp
  have f: "browser_extract_text no_submit_server (Suc (Suc (tick ?i))) (current_url ?i) =
      Inr ''What is 6 times 7?''" by code_simp
  have g: "solve_question no_submit_server (Suc (Suc (Suc (tick ?i))))
      (extract_question_info ''What is 6 times 7?'' ''<p>What is 6 times 7?</p>'') = (Inr (PInt 42), 6)"
    by code_simp
  have h: "extract_submit_url ''<p>What is 6 times 7?</p>'' = None" by code_simp
  have n: "now no_submit_server 6 - now no_submit_server 0 = 0" by code_simp
  have main: "solve_quiz 1 student no_submit_server ''http://quiz/1'' =
       Some \<lparr> success = True,
              summary_results =
                [\<lparr> url = PStr ''http://quiz/1'', answer = Some (PInt 42), correct = PNone,
                    next_url = None, reason = None, attempt = None,
                    error = Some ''No submit URL found'' \<rparr>],
              total_time = Some 0, summary_error = None \<rparr>"
    using n no_submit_url_stops [OF a b c d e f g h, of 0] by (simp add: initial_state_def)
  have d': "\<not> now no_submit_server 2 - now no_submit_server 0 > max_time"
    using d by (simp add: initial_state_def)
  have e': "browser_navigate no_submit_server 3 (PStr ''http://quiz/1'') =
      Inr ''<p>What is 6 times 7?</p>''" by code_simp
  have f': "browser_extract_text no_submit_server 4 (PStr ''http://quiz/1'') =
      Inr ''What is 6 times 7?''" by code_simp
  have g': "solve_question no_submit_server 5
      (extract_question_info ''What is 6 times 7?'' ''<p>What is 6 times 7?</p>'') = (Inr (PInt 42), 6)"
    by code_simp
  show ?thesis using a b c d' e' f' g' h main by blast
qed

text \<open>
  Claim C7 as stated fails on that page: the error of the result is not \<^verbatim>\<open>no submit target\<close>.
\<close>

theorem no_submit_url_counterexample:
  "extract_submit_url ''<p>What is 6 times 7?</p>'' = None
   \<and> \<not> (correct (fst (solve_single_quiz student no_submit_server 3 (PStr ''http://quiz/1''))) = PNone
         \<and> error (fst (solve_single_quiz student no_submit_server 3 (PStr ''http://quiz/1''))) =
             Some ''no submit target'')"
  by code_simp

text \<open>
  Claim C10.  When the page renders, an answer is produced, the markup names a submit URL and
  attempt \<open>j\<close> is the first answered with status 200 and a JSON object, then a body without
  \<^verbatim>\<open>correct\<close> gives a result with \<open>correct\<close> false, a body without \<^verbatim>\<open>url\<close> gives a result
  without next URL, and with both missing the session ends there with \<open>success = True\<close> and
  that result last in its history.  Nothing is raised: \<open>submit_answer\<close> returns a result in
  every case.
\<close>

theorem missing_fields_in_200_body:
  assumes "browser_start env 1 = None"
    and "run k self env (now env 0) (initial_state initial_url) = Some s"
    and "truthy (current_url s)"
    and "\<not> now env (tick s) - now env 0 > max_time"
    and "browser_navigate env (Suc (tick s)) (current_url s) = Inr html_content"
    and "browser_extract_text env (Suc (Suc (tick s))) (current_url s) = Inr text_content"
    and "solve_question env (Suc (Suc (Suc (tick s))))
           (extract_question_info text_content html_content) = (Inr answer_value, t1)"
    and "extract_submit_url html_content = Some submit_to"
    and "j < 3"
    and "\<forall>i<j. post_once env (t1 + 2 * i) submit_to
           (payload_of self (current_url s) answer_value) i = None"
    and "client_post env (t1 + 2 * j) submit_to (payload_of self (current_url s) answer_value) =
           Inr (200, Inr (PDict body))"
  shows "(map_of body ''correct'' = None \<longrightarrow>
            correct (fst (submit_answer self env t1 submit_to (current_url s) answer_value 3)) =
              PBool False)
       \<and> (map_of body ''url'' = None \<longrightarrow>
            get_next_url (fst (submit_answer self env t1 submit_to (current_url s) answer_value 3)) =
              PNone)
       \<and> (map_of body ''correct'' = None \<and> map_of body ''url'' = None \<longrightarrow>
            solve_quiz (Suc (k + n)) self env initial_url =
              Some \<lparr> success = True,
                     summary_results = results s @
                       [\<lparr> url = current_url s, answer = Some answer_value, correct = PBool False,
                          next_url = Some PNone, reason = Some (dict_get body ''reason'' PNone),
                          attempt = Some (int j + 1), error = None \<rparr>],
                     total_time = Some (now env (Suc (t1 + 2 * j)) - now env 0),
                     summary_error = None \<rparr>)"
proof -
  let ?r = "\<lparr> url = current_url s, answer = Some answer_value,
              correct = dict_get body ''correct'' (PBool False),
              next_url = Some (dict_get body ''url'' PNone),
              reason = Some (dict_get body ''reason'' PNone),
              attempt = Some (int j + 1), error = None \<rparr>"
  have sub: "submit_answer self env t1 submit_to (current_url s) answer_value 3 =
      (?r, Suc (t1 + 2 * j))"
    using assms(9-11) by (rule submit_answer_200)
  have one: "map_of body ''correct'' = None \<longrightarrow>
      correct (fst (submit_answer self env t1 submit_to (current_url s) answer_value 3)) = PBool False"
    by (simp add: sub dict_get_def)
  have two: "map_of body ''url'' = None \<longrightarrow>
      get_next_url (fst (submit_answer self env t1 submit_to (current_url s) answer_value 3)) = PNone"
    by (simp add: sub dict_get_def get_next_url_def)
  have three: "solve_quiz (Suc (k + n)) self env initial_url =
              Some \<lparr> success = True,
                     summary_results = results s @
                       [\<lparr> url = current_url s, answer = Some answer_value, correct = PBool False,
                          next_url = Some PNone, reason = Some (dict_get body ''reason'' PNone),
                          attempt = Some (int j + 1), error = None \<rparr>],
                     total_time = Some (now env (Suc (t1 + 2 * j)) - now env 0),
                     summary_error = None \<rparr>"
    if m: "map_of body ''correct'' = None" "map_of body ''url'' = None"
  proof -
    let ?r' = "\<lparr> url = current_url s, answer = Some answer_value, correct = PBool False,
                 next_url = Some PNone, reason = Some (dict_get body ''reason'' PNone),
                 attempt = Some (int j + 1), error = None \<rparr>"
    have eq: "?r = ?r'" using m by (simp add: dict_get_def)
    have "solve_single_quiz self env (Suc (tick s)) (current_url s) = (?r', Suc (t1 + 2 * j))"
      using solve_single_quiz_page [OF assms(5-7)] assms(8) sub eq by simp
    moreover have "\<not> truthy (get_next_url ?r')" by (simp add: get_next_url_def)
    ultimately have "loop_step self env (now env 0) s = Break (results s @ [?r']) (Suc (t1 + 2 * j))"
      using assms(3,4) by (intro loop_step_stop)
    with assms(1,2) show ?thesis by (rule solve_quiz_from)
  qed
  show ?thesis using one two three by blast
qed

text \<open>
  A server that answers the first submission with 200 and \<^verbatim>\<open>{"reason": "thanks"}\<close>.
\<close>

theorem missing_fields_in_200_body_witness:
  "browser_start sloppy_server 1 = None
   \<and> run 0 student sloppy_server (now sloppy_server 0) (initial_state ''http://quiz/1'') =
       Some (initial_state ''http://quiz/1'')
   \<and> truthy (current_url (initial_state ''http://quiz/1''))
   \<and> \<not> now sloppy_server 2 - now sloppy_server 0 > max_time
   \<and> browser_navigate sloppy_server 3 (PStr ''http://quiz/1'') =
       Inr ''<p>Post to http://quiz/submit</p>''
   \<and> browser_extract_text sloppy_server 4 (PStr ''http://quiz/1'') = Inr ''What is 6 times 7?''
   \<and> solve_question sloppy_server 5
        (extract_question_info ''What is 6 times 7?'' ''<p>Post to http://quiz/submit</p>'') =
       (Inr (PInt 42), 6)
   \<and> extract_submit_url ''<p>Post to http://quiz/submit</p>'' = Some ''http://quiz/submit''
   \<and> client_post sloppy_server 6 ''http://quiz/submit''
        (payload_of student (PStr ''http://quiz/1'') (PInt 42)) =
       Inr (200, Inr (PDict [(''reason'', PStr ''thanks'')]))
   \<and> map_of [(''reason'', PStr ''thanks'')] ''correct'' = None
   \<and> map_of [(''reason'', PStr ''thanks'')] ''url'' = None
   \<and> correct (fst (submit_answer student sloppy_server 6 ''http://quiz/submit''
        (PStr ''http://quiz/1'') (PInt 42) 3)) = PBool False
   \<and> get_next_url (fst (submit_answer student sloppy_server 6 ''http://quiz/submit''
        (PStr ''http://quiz/1'') (PInt 42) 3)) = PNone
   \<and> solve_quiz 1 student sloppy_server ''http://quiz/1'' =
       Some \<lparr> success = True,
              summary_results =
                [\<lparr> url = PStr ''http://quiz/1'', answer = Some (PInt 42), correct = PBool False,
                    next_url = Some PNone, reason = Some (PStr ''thanks''), attempt = Some 1,
                    error = None \<rparr>],
              total_time = Some 0, summary_error = None \<rparr>"
proof -
  let ?i = "initial_state ''http://quiz/1''"
  let ?body = "[(''reason'', PStr ''thanks'')]"
  have a: "browser_start sloppy_server 1 = None" by code_simp
  have b: "run 0 student sloppy_server (now sloppy_server 0) ?i = Some ?i" by simp
  have c: "truthy (current_url ?i)" by (simp add: initial_state_def)
  have d: "\<not> now sloppy_server (tick ?i) - now sloppy_server 0 > max_time" by code_simp
  have e: "browser_navigate sloppy_server (Suc (tick ?i)) (current_url ?i) =
      Inr ''<p>Post to http://quiz/submit</p>''" by code_simp
  have f: "browser_extract_text sloppy_server (Suc (Suc (tick ?i))) (current_url ?i) =
      Inr ''What is 6 times 7?''" by code_simp
  have g: "solve_question sloppy_server (Suc (Suc (Suc (tick ?i))))
      (extract_question_info ''What is 6 times 7?'' ''<p>Post to http://quiz/submit</p>'') =
      (Inr (PInt 42), 6)"
    by code_simp
  have h: "extract_submit_url ''<p>Post to http://quiz/submit</p>'' = Some ''http://quiz/submit''"
    by code_simp
  have j: "(0::nat) < 3" by simp
  have none: "\<forall>i<(0::nat). post_once sloppy_server (6 + 2 * i) ''http://quiz/submit''
      (payload_of student (current_url ?i) (PInt 42)) i = None" by simp
  have post: "client_post sloppy_server (6 + 2 * 0) ''http://quiz/submit''
      (payload_of student (current_url ?i) (PInt 42)) = Inr (200, Inr (PDict ?body))"
    by code_simp
  have m1: "map_of ?body ''correct'' = None" and m2: "map_of ?body ''url'' = None" by simp_all
  have n: "now sloppy_server (Suc (6 + 2 * 0)) - now sloppy_server 0 = 0" by code_simp
  have cu: "current_url ?i = PStr ''http://quiz/1''" by (simp add: initial_state_def)
  note inst = missing_fields_in_200_body [OF a b c d e f g h j none post, of 0]
  have r1: "correct (fst (submit_answer student sloppy_server 6 ''http://quiz/submit''
        (PStr ''http://quiz/1'') (PInt 42) 3)) = PBool False"
    using inst m1 cu by simp
  have r2: "get_next_url (fst (submit_answer student sloppy_server 6 ''http://quiz/submit''
        (PStr ''http://quiz/1'') (PInt 42) 3)) = PNone"
    using inst m2 cu by simp
  have r3: "solve_quiz 1 student sloppy_server ''http://quiz/1'' =
       Some \<lparr> success = True,
              summary_results =
                [\<lparr> url = PStr ''http://quiz/1'', answer = Some (PInt 42), correct = PBool False,
                    next_url = Some PNone, reason = Some (PStr ''thanks''), attempt = Some 1,
                    error = None \<rparr>],
              total_time = Some 0, summary_error = None \<rparr>"
    using inst m1 m2 n by (simp add: initial_state_def dict_get_def)
  have d': "\<not> now sloppy_server 2 - now sloppy_server 0 > max_time"
    using d by (simp add: initial_state_def)
  have e': "browser_navigate sloppy_server 3 (PStr ''http://quiz/1'') =
      Inr ''<p>Post to http://quiz/submit</p>''" by code_simp
  have f': "browser_extract_text sloppy_server 4 (PStr ''http://quiz/1'') =
      Inr ''What is 6 times 7?''" by code_simp
  have g': "solve_question sloppy_server 5
      (extract_question_info ''What is 6 times 7?'' ''<p>Post to http://quiz/submit</p>'') =
      (Inr (PInt 42), 6)"
    by code_simp
  have post': "client_post sloppy_server 6 ''http://quiz/submit''
      (payload_of student (PStr ''http://quiz/1'') (PInt 42)) = Inr (200, Inr (PDict ?body))"
    by code_simp
  show ?thesis using a b c d' e' f' g' h post' m1 m2 r1 r2 r3 by blast
qed


subsection \<open>The URLs a session visits\<close>

lemma post_once_url: "post_once env t u p a = Some r \<Longrightarrow> url r = payload_url p"
  by (auto simp: post_once_def split: sum.splits prod.splits if_splits pyval.splits)

lemma submit_attempts_url:
  "submit_attempts env u p m as t = (Some r, t') \<Longrightarrow> url r = payload_url p"
proof (induction as arbitrary: t)
  case Nil
  then show ?case by simp
next
  case (Cons a as)
  show ?case
  proof (cases "post_once env t u p a")
    case None
    with Cons show ?thesis by simp
  next
    case (Some r')
    with Cons.prems have "r' = r" by simp
    with Some show ?thesis by (simp add: post_once_url)
  qed
qed

lemma submit_answer_url: "url (fst (submit_answer self env t u q a m)) = q"
proof -
  let ?p = "\<lparr> payload_email = email self, payload_secret = secret self,
               payload_url = q, payload_answer = a \<rparr>"
  obtain ro t' where sa: "submit_attempts env u ?p m [0..<m] t = (ro, t')"
    by (cases "submit_attempts env u ?p m [0..<m] t")
  show ?thesis
  proof (cases ro)
    case None
    with sa show ?thesis by (simp add: submit_answer_def)
  next
    case (Some r)
    with sa have "url r = q" using submit_attempts_url [of env u ?p m "[0..<m]" t r t'] by simp
    with sa Some show ?thesis by (simp add: submit_answer_def)
  qed
qed

lemma solve_single_quiz_try_url:
  assumes "solve_single_quiz_try self env t u = (Inr r, t')"
  shows "url r = u"
proof (cases "browser_navigate env t u")
  case (Inl e)
  with assms show ?thesis by (simp add: solve_single_quiz_try_def)
next
  case nav: (Inr html_content)
  show ?thesis
  proof (cases "browser_extract_text env (Suc t) u")
    case (Inl e)
    with assms nav show ?thesis by (simp add: solve_single_quiz_try_def)
  next
    case tx: (Inr text_content)
    obtain res t1 where sq: "solve_question env (Suc (Suc t))
        (extract_question_info text_content html_content) = (res, t1)"
      by (cases "solve_question env (Suc (Suc t)) (extract_question_info text_content html_content)")
    show ?thesis
    proof (cases res)
      case (Inl e)
      with assms nav tx sq show ?thesis by (simp add: solve_single_quiz_try_def)
    next
      case ans: (Inr answer_value)
      show ?thesis
      proof (cases "extract_submit_url html_content")
        case None
        with assms nav tx sq ans show ?thesis
          by (auto simp: solve_single_quiz_try_def extract_question_info_def)
      next
        case (Some submit_to)
        obtain r2 t2 where sa: "submit_answer self env t1 submit_to u answer_value 3 = (r2, t2)"
          by (cases "submit_answer self env t1 submit_to u answer_value 3")
        then have "url r2 = u"
          using submit_answer_url [of self env t1 submit_to u answer_value 3] by simp
        moreover have "r = r2"
          using assms nav tx sq ans Some sa
          by (simp add: solve_single_quiz_try_def extract_question_info_def)
        ultimately show ?thesis by simp
      qed
    qed
  qed
qed

lemma solve_single_quiz_url: "url (fst (solve_single_quiz self env t u)) = u"
proof -
  obtain res t' where tr: "solve_single_quiz_try self env t u = (res, t')"
    by (cases "solve_single_quiz_try self env t u")
  show ?thesis
  proof (cases res)
    case (Inl e)
    with tr show ?thesis by (cases e) (simp add: solve_single_quiz_def)
  next
    case (Inr r)
    with tr have "url r = u" using solve_single_quiz_try_url by blast
    with tr Inr show ?thesis by (simp add: solve_single_quiz_def)
  qed
qed

lemma follows_snoc: "follows u (rs @ [r]) \<longleftrightarrow> follows u rs \<and> url r = end_url u rs"
  by (induction rs arbitrary: u) auto

lemma end_url_snoc: "end_url u (rs @ [r]) = get_next_url r"
  by (induction rs arbitrary: u) auto

lemma follows_urls:
  "follows u rs \<Longrightarrow> rs \<noteq> [] \<Longrightarrow> map url rs = u # map get_next_url (butlast rs)"
proof (induction rs arbitrary: u)
  case Nil
  then show ?case by simp
next
  case (Cons r rs)
  have hd: "url r = u" and tl: "follows (get_next_url r) rs" using Cons.prems(1) by simp_all
  show ?case
  proof (cases "rs = []")
    case True
    with hd show ?thesis by simp
  next
    case False
    then have "map url rs = get_next_url r # map get_next_url (butlast rs)"
      using Cons.IH [OF tl] by simp
    with hd False show ?thesis by simp
  qed
qed

lemma loop_step_idle:
  "\<not> truthy (current_url s) \<Longrightarrow> loop_step self env start s = Break (results s) (tick s)"
  by (simp add: loop_step_def)

lemma loop_step_follows:
  assumes "follows u0 (results s)" "current_url s = end_url u0 (results s)"
  shows "(loop_step self env start s = Continue s' \<longrightarrow>
           follows u0 (results s') \<and> current_url s' = end_url u0 (results s'))
       \<and> (loop_step self env start s = Break rs t \<longrightarrow> follows u0 rs)"
proof -
  obtain r t1 where sq: "solve_single_quiz self env (Suc (tick s)) (current_url s) = (r, t1)"
    by (cases "solve_single_quiz self env (Suc (tick s)) (current_url s)")
  have ur: "url r = current_url s"
    using solve_single_quiz_url [of self env "Suc (tick s)" "current_url s"] sq by simp
  have ext: "follows u0 (results s @ [r])"
    using assms ur by (simp add: follows_snoc)
  consider (idle) "\<not> truthy (current_url s)"
    | (late) "truthy (current_url s)" "now env (tick s) - start > max_time"
    | (stop) "truthy (current_url s)" "\<not> now env (tick s) - start > max_time"
        "\<not> truthy (get_next_url r)"
    | (go) "truthy (current_url s)" "\<not> now env (tick s) - start > max_time"
        "truthy (get_next_url r)"
    by blast
  then show ?thesis
  proof cases
    case idle
    then have "loop_step self env start s = Break (results s) (tick s)" by (rule loop_step_idle)
    with assms(1) show ?thesis by auto
  next
    case late
    then have "loop_step self env start s = Break (results s) (Suc (tick s))"
      by (rule loop_step_deadline)
    with assms(1) show ?thesis by auto
  next
    case stop
    then have "loop_step self env start s = Break (results s @ [r]) t1"
      using sq by (intro loop_step_stop)
    with ext show ?thesis by auto
  next
    case go
    then have "loop_step self env start s =
        Continue \<lparr> tick = t1, current_url = get_next_url r, results = results s @ [r] \<rparr>"
      using sq by (intro loop_step_go)
    with ext show ?thesis by (auto simp: end_url_snoc)
  qed
qed

lemma solve_loop_follows:
  "follows u0 (results s) \<Longrightarrow> current_url s = end_url u0 (results s) \<Longrightarrow>
   solve_loop fuel self env start s = Some (rs, t) \<Longrightarrow> follows u0 rs"
proof (induction fuel arbitrary: s)
  case 0
  then show ?case by simp
next
  case (Suc fuel)
  show ?case
  proof (cases "loop_step self env start s")
    case (Continue s')
    then have "follows u0 (results s') \<and> current_url s' = end_url u0 (results s')"
      using loop_step_follows [OF Suc.prems(1,2)] by blast
    moreover have "solve_loop fuel self env start s' = Some (rs, t)"
      using Suc.prems(3) Continue by simp
    ultimately show ?thesis using Suc.IH by blast
  next
    case (Break rs' t')
    then have "rs' = rs" using Suc.prems(3) by simp
    with Break show ?thesis using loop_step_follows [OF Suc.prems(1,2)] by blast
  qed
qed

lemma loop_step_visit:
  assumes "truthy (current_url s)" "\<not> now env (tick s) - start > max_time"
  shows "\<exists>r. out_results (loop_step self env start s) = results s @ [r] \<and> url r = current_url s"
proof -
  obtain r t1 where sq: "solve_single_quiz self env (Suc (tick s)) (current_url s) = (r, t1)"
    by (cases "solve_single_quiz self env (Suc (tick s)) (current_url s)")
  have ur: "url r = current_url s"
    using solve_single_quiz_url [of self env "Suc (tick s)" "current_url s"] sq by simp
  have "out_results (loop_step self env start s) = results s @ [r]"
  proof (cases "truthy (get_next_url r)")
    case True
    then have "loop_step self env start s =
        Continue \<lparr> tick = t1, current_url = get_next_url r, results = results s @ [r] \<rparr>"
      using assms sq by (intro loop_step_go)
    then show ?thesis by (simp add: out_results_def)
  next
    case False
    then have "loop_step self env start s = Break (results s @ [r]) t1"
      using assms sq by (intro loop_step_stop)
    then show ?thesis by (simp add: out_results_def)
  qed
  with ur show ?thesis by blast
qed

lemma loop_step_revisit:
  assumes "truthy (current_url s)" "\<not> now env (tick s) - start > max_time"
    and "current_url s \<in> set (map url (results s))"
  shows "\<not> distinct (map url (out_results (loop_step self env start s)))"
proof -
  obtain r where "out_results (loop_step self env start s) = results s @ [r]"
    and "url r = current_url s"
    using loop_step_visit [OF assms(1,2)] by blast
  with assms(3) show ?thesis by auto
qed

lemma loop_step_Continue_length:
  assumes "loop_step self env start s = Continue s'"
  shows "length (results s') = Suc (length (results s))"
proof -
  have t: "truthy (current_url s)"
    using assms loop_step_idle [of s self env start] by auto
  have l: "\<not> now env (tick s) - start > max_time"
    using assms t loop_step_deadline [of s env start self] by auto
  obtain r where "out_results (loop_step self env start s) = results s @ [r]"
    using loop_step_visit [OF t l] by blast
  with assms show ?thesis by (simp add: out_results_def)
qed

lemma run_follows:
  assumes "follows u0 (results s0)" "current_url s0 = end_url u0 (results s0)"
    and "run k self env start s0 = Some s"
  shows "follows u0 (results s) \<and> current_url s = end_url u0 (results s)
       \<and> length (results s) = length (results s0) + k"
  using assms
proof (induction k arbitrary: s0)
  case 0
  then show ?case by simp
next
  case (Suc k)
  show ?case
  proof (cases "loop_step self env start s0")
    case (Break rs t)
    with Suc.prems(3) show ?thesis by simp
  next
    case (Continue s')
    have inv: "follows u0 (results s') \<and> current_url s' = end_url u0 (results s')"
      using loop_step_follows [OF Suc.prems(1,2)] Continue by blast
    have len: "length (results s') = Suc (length (results s0))"
      using Continue by (rule loop_step_Continue_length)
    have "run k self env start s' = Some s" using Suc.prems(3) Continue by simp
    then have "follows u0 (results s) \<and> current_url s = end_url u0 (results s)
       \<and> length (results s) = length (results s') + k"
      using inv Suc.IH by blast
    with len show ?thesis by simp
  qed
qed

lemma follows_distinct:
  assumes "follows u rs" "distinct (u # map get_next_url (butlast rs))"
  shows "distinct (map url rs)"
proof (cases "rs = []")
  case True
  then show ?thesis by simp
next
  case False
  with assms show ?thesis using follows_urls [of u rs] by simp
qed

lemma solve_quiz_follows:
  assumes "solve_quiz fuel self env initial_url = Some sm"
  shows "follows (PStr initial_url) (summary_results sm)"
proof (cases "browser_start env 1")
  case (Some e)
  obtain msg where "e = Exception msg" by (cases e)
  with Some assms have "sm = \<lparr> success = False, summary_results = [], total_time = None,
      summary_error = Some msg \<rparr>"
    by (simp add: solve_quiz_def)
  then have "summary_results sm = []" by simp
  then show ?thesis by simp
next
  case None
  show ?thesis
  proof (cases "solve_loop fuel self env (now env 0) (initial_state initial_url)")
    case nothing: None
    with None assms show ?thesis by (simp add: solve_quiz_def)
  next
    case (Some out)
    obtain rs t where out: "out = (rs, t)" by (cases out)
    have "sm = \<lparr> success = True, summary_results = rs,
        total_time = Some (now env t - now env 0), summary_error = None \<rparr>"
      using None Some out assms by (simp add: solve_quiz_def)
    then have sm: "summary_results sm = rs" by simp
    have "follows (PStr initial_url) (results (initial_state initial_url))"
      and "current_url (initial_state initial_url) =
           end_url (PStr initial_url) (results (initial_state initial_url))"
      by (simp_all add: initial_state_def)
    moreover have "solve_loop fuel self env (now env 0) (initial_state initial_url) = Some (rs, t)"
      using Some out by simp
    ultimately have "follows (PStr initial_url) rs" by (rule solve_loop_follows)
    with sm show ?thesis by simp
  qed
qed

text \<open>
  Claim C9, as amended.  At every point of every session, whether the session comes to an end
  or not, the results so far follow the server from the initial URL: after \<open>k\<close> passes through
  the loop there are \<open>k\<close> results, the first for the initial URL and each further one for the
  next URL of the result before it, and the current URL is the next URL of the last result.
  So if the initial URL and the next URLs followed so far are pairwise distinct, no URL has
  been visited twice.  The loop keeps no record of the pages it has visited: a pass that is
  begun always visits the current URL, so a current URL that has been visited before is
  visited again.  The results of a session that returns follow the server in the same way.
\<close>

theorem visits_follow_server:
  "(run k self env (now env 0) (initial_state initial_url) = Some s
    \<longrightarrow> follows (PStr initial_url) (results s)
        \<and> current_url s = end_url (PStr initial_url) (results s)
        \<and> length (results s) = k
        \<and> (distinct (PStr initial_url # map get_next_url (butlast (results s)))
           \<longrightarrow> distinct (map url (results s))))
   \<and> (truthy (current_url s) \<and> \<not> now env (tick s) - start_time > max_time
    \<longrightarrow> (\<exists>r. out_results (loop_step self env start_time s) = results s @ [r]
             \<and> url r = current_url s)
        \<and> (current_url s \<in> set (map url (results s))
           \<longrightarrow> \<not> distinct (map url (out_results (loop_step self env start_time s)))))
   \<and> (solve_quiz fuel self env initial_url = Some sm
    \<longrightarrow> follows (PStr initial_url) (summary_results sm)
        \<and> (distinct (PStr initial_url # map get_next_url (butlast (summary_results sm)))
           \<longrightarrow> distinct (map url (summary_results sm))))"
proof (intro conjI impI)
  assume r: "run k self env (now env 0) (initial_state initial_url) = Some s"
  have "follows (PStr initial_url) (results (initial_state initial_url))"
    and "current_url (initial_state initial_url) =
         end_url (PStr initial_url) (results (initial_state initial_url))"
    by (simp_all add: initial_state_def)
  then have inv: "follows (PStr initial_url) (results s)
      \<and> current_url s = end_url (PStr initial_url) (results s)
      \<and> length (results s) = length (results (initial_state initial_url)) + k"
    using r by (rule run_follows)
  show "follows (PStr initial_url) (results s)" using inv by simp
  show "current_url s = end_url (PStr initial_url) (results s)" using inv by simp
  show "length (results s) = k" using inv by (simp add: initial_state_def)
  show "distinct (map url (results s))"
    if "distinct (PStr initial_url # map get_next_url (butlast (results s)))"
    using inv that follows_distinct by blast
next
  assume h: "truthy (current_url s) \<and> \<not> now env (tick s) - start_time > max_time"
  show "\<exists>r. out_results (loop_step self env start_time s) = results s @ [r]
      \<and> url r = current_url s"
    using h loop_step_visit by blast
  show "\<not> distinct (map url (out_results (loop_step self env start_time s)))"
    if "current_url s \<in> set (map url (results s))"
    using h that loop_step_revisit by blast
next
  assume q: "solve_quiz fuel self env initial_url = Some sm"
  then show f: "follows (PStr initial_url) (summary_results sm)" by (rule solve_quiz_follows)
  show "distinct (map url (summary_results sm))"
    if "distinct (PStr initial_url # map get_next_url (butlast (summary_results sm)))"
    using f that follows_distinct by blast
qed

subsection \<open>A session that never ends\<close>

lemma endless_page:
  "extract_question_info ''What is 6 times 7?'' ''<p>Post to http://quiz/submit</p>'' =
     \<lparr> qtext = ''What is 6 times 7?'', qhtml = ''<p>Post to http://quiz/submit</p>'',
       qtype = General, qsubmit_url = Some ''http://quiz/submit'', qdata_urls = [] \<rparr>"
  by code_simp

lemma answer_42: "extract_answer ''42'' = PInt 42"
  by code_simp

lemma endless_single:
  "solve_single_quiz student endless_server t (PStr ''http://quiz/1'') =
     (\<lparr> url = PStr ''http://quiz/1'', answer = Some (PInt 42), correct = PBool True,
        next_url = Some (PStr ''http://quiz/1''), reason = Some PNone, attempt = Some 1,
        error = None \<rparr>, t + 4)"
proof -
  have nav: "browser_navigate endless_server t (PStr ''http://quiz/1'') =
      Inr ''<p>Post to http://quiz/submit</p>''"
    and tx: "browser_extract_text endless_server (Suc t) (PStr ''http://quiz/1'') =
      Inr ''What is 6 times 7?''"
    by (simp_all add: endless_server_def quiz_server_def offline_def)
  have llm: "llm_solve_question endless_server (Suc (Suc t)) ''What is 6 times 7?'' None = Inr ''42''"
    by (simp add: endless_server_def quiz_server_def offline_def)
  have sq: "solve_question endless_server (Suc (Suc t))
      (extract_question_info ''What is 6 times 7?'' ''<p>Post to http://quiz/submit</p>'') =
      (Inr (PInt 42), Suc (Suc (Suc t)))"
    unfolding endless_page
    by (simp add: solve_question_def dispatch_def solve_general_question_def llm answer_42)
  have su: "extract_submit_url ''<p>Post to http://quiz/submit</p>'' = Some ''http://quiz/submit''"
    by code_simp
  have post: "client_post endless_server (Suc (Suc (Suc t)) + 2 * 0) ''http://quiz/submit''
      (payload_of student (PStr ''http://quiz/1'') (PInt 42)) =
      Inr (200, Inr (PDict [(''correct'', PBool True), (''url'', PStr ''http://quiz/1'')]))"
    by (simp add: endless_server_def quiz_server_def offline_def)
  have sub: "submit_answer student endless_server (Suc (Suc (Suc t))) ''http://quiz/submit''
      (PStr ''http://quiz/1'') (PInt 42) 3 =
     (\<lparr> url = PStr ''http://quiz/1'', answer = Some (PInt 42),
        correct = dict_get [(''correct'', PBool True), (''url'', PStr ''http://quiz/1'')] ''correct'' (PBool False),
        next_url = Some (dict_get [(''correct'', PBool True), (''url'', PStr ''http://quiz/1'')] ''url'' PNone),
        reason = Some (dict_get [(''correct'', PBool True), (''url'', PStr ''http://quiz/1'')] ''reason'' PNone),
        attempt = Some (int 0 + 1), error = None \<rparr>, Suc (Suc (Suc (Suc t)) + 2 * 0))"
    using post by (intro submit_answer_200) simp_all
  show ?thesis
    using solve_single_quiz_page [OF nav tx sq, of student] su sub
    by (simp add: dict_get_def)
qed

lemma endless_step:
  assumes "current_url s = PStr ''http://quiz/1''"
  shows "loop_step student endless_server 0 s =
     Continue \<lparr> tick = tick s + 5, current_url = PStr ''http://quiz/1'',
                results = results s @
                  [\<lparr> url = PStr ''http://quiz/1'', answer = Some (PInt 42), correct = PBool True,
                     next_url = Some (PStr ''http://quiz/1''), reason = Some PNone,
                     attempt = Some 1, error = None \<rparr>] \<rparr>"
proof -
  let ?r = "\<lparr> url = PStr ''http://quiz/1'', answer = Some (PInt 42), correct = PBool True,
              next_url = Some (PStr ''http://quiz/1''), reason = Some PNone,
              attempt = Some 1, error = None \<rparr>"
  have t: "truthy (current_url s)" using assms by simp
  have l: "\<not> now endless_server (tick s) - 0 > max_time"
    by (simp add: endless_server_def quiz_server_def offline_def max_time_def
        MAX_QUIZ_TIME_SECONDS_def)
  have sq: "solve_single_quiz student endless_server (Suc (tick s)) (current_url s) =
      (?r, tick s + 5)"
    using endless_single [of "Suc (tick s)"] assms by simp
  have n: "truthy (get_next_url ?r)" by (simp add: get_next_url_def)
  have "loop_step student endless_server 0 s =
      Continue \<lparr> tick = tick s + 5, current_url = get_next_url ?r, results = results s @ [?r] \<rparr>"
    using t l sq n by (rule loop_step_go)
  then show ?thesis by (simp add: get_next_url_def)
qed

lemma endless_loop:
  "current_url s = PStr ''http://quiz/1'' \<Longrightarrow> solve_loop fuel student endless_server 0 s = None"
proof (induction fuel arbitrary: s)
  case 0
  then show ?case by simp
next
  case (Suc fuel)
  let ?s' = "\<lparr> tick = tick s + 5, current_url = PStr ''http://quiz/1'',
                results = results s @
                  [\<lparr> url = PStr ''http://quiz/1'', answer = Some (PInt 42), correct = PBool True,
                     next_url = Some (PStr ''http://quiz/1''), reason = Some PNone,
                     attempt = Some 1, error = None \<rparr>] \<rparr>"
  have "loop_step student endless_server 0 s = Continue ?s'"
    using Suc.prems by (rule endless_step)
  moreover have "solve_loop fuel student endless_server 0 ?s' = None"
    by (rule Suc.IH) simp
  ultimately show ?case by simp
qed

lemma endless_session: "solve_quiz fuel student endless_server ''http://quiz/1'' = None"
proof -
  have "now endless_server 0 = 0" "browser_start endless_server 1 = None"
    by (simp_all add: endless_server_def quiz_server_def offline_def)
  moreover have "solve_loop fuel student endless_server 0 (initial_state ''http://quiz/1'') = None"
    by (rule endless_loop) (simp add: initial_state_def)
  ultimately show ?thesis by (simp add: solve_quiz_def)
qed

lemma endless_run:
  "run 2 student endless_server (now endless_server 0) (initial_state ''http://quiz/1'') =
     Some \<lparr> tick = 12, current_url = PStr ''http://quiz/1'',
            results =
              [\<lparr> url = PStr ''http://quiz/1'', answer = Some (PInt 42), correct = PBool True,
                  next_url = Some (PStr ''http://quiz/1''), reason = Some PNone,
                  attempt = Some 1, error = None \<rparr>,
               \<lparr> url = PStr ''http://quiz/1'', answer = Some (PInt 42), correct = PBool True,
                  next_url = Some (PStr ''http://quiz/1''), reason = Some PNone,
                  attempt = Some 1, error = None \<rparr>] \<rparr>"
  by code_simp

text \<open>
  The session of \<open>endless_server\<close>, which returns for no amount of fuel: after two passes it has
  solved the same URL twice and is about to solve it again.  And the session of
  \<open>quiz_server\<close>, which returns: two pages, two different URLs.
\<close>

theorem visits_follow_server_witness:
  "(\<forall>fuel. solve_quiz fuel student endless_server ''http://quiz/1'' = None)
   \<and> run 2 student endless_server (now endless_server 0) (initial_state ''http://quiz/1'') =
       Some \<lparr> tick = 12, current_url = PStr ''http://quiz/1'',
              results =
                [\<lparr> url = PStr ''http://quiz/1'', answer = Some (PInt 42), correct = PBool True,
                    next_url = Some (PStr ''http://quiz/1''), reason = Some PNone,
                    attempt = Some 1, error = None \<rparr>,
                 \<lparr> url = PStr ''http://quiz/1'', answer = Some (PInt 42), correct = PBool True,
                    next_url = Some (PStr ''http://quiz/1''), reason = Some PNone,
                    attempt = Some 1, error = None \<rparr>] \<rparr>
   \<and> follows (PStr ''http://quiz/1'')
        [\<lparr> url = PStr ''http://quiz/1'', answer = Some (PInt 42), correct = PBool True,
            next_url = Some (PStr ''http://quiz/1''), reason = Some PNone,
            attempt = Some 1, error = None \<rparr>,
         \<lparr> url = PStr ''http://quiz/1'', answer = Some (PInt 42), correct = PBool True,
            next_url = Some (PStr ''http://quiz/1''), reason = Some PNone,
            attempt = Some 1, error = None \<rparr>]
   \<and> \<not> distinct (map url (out_results (loop_step student endless_server (now endless_server 0)
        \<lparr> tick = 12, current_url = PStr ''http://quiz/1'',
          results =
            [\<lparr> url = PStr ''http://quiz/1'', answer = Some (PInt 42), correct = PBool True,
                next_url = Some (PStr ''http://quiz/1''), reason = Some PNone,
                attempt = Some 1, error = None \<rparr>,
             \<lparr> url = PStr ''http://quiz/1'', answer = Some (PInt 42), correct = PBool True,
                next_url = Some (PStr ''http://quiz/1''), reason = Some PNone,
                attempt = Some 1, error = None \<rparr>] \<rparr>)))
   \<and> solve_quiz 2 student quiz_server ''http://quiz/1'' =
     Some \<lparr> success = True,
            summary_results =
              [\<lparr> url = PStr ''http://quiz/1'', answer = Some (PInt 42), correct = PBool True,
                  next_url = Some (PStr ''http://quiz/2''), reason = Some PNone,
                  attempt = Some 1, error = None \<rparr>,
               \<lparr> url = PStr ''http://quiz/2'', answer = None, correct = PBool False,
                  next_url = None, reason = None, attempt = None,
                  error = Some ''page not found'' \<rparr>],
            total_time = Some 0, summary_error = None \<rparr>
   \<and> distinct (map url
        [\<lparr> url = PStr ''http://quiz/1'', answer = Some (PInt 42), correct = PBool True,
            next_url = Some (PStr ''http://quiz/2''), reason = Some PNone,
            attempt = Some 1, error = None \<rparr>,
         \<lparr> url = PStr ''http://quiz/2'', answer = None, correct = PBool False,
            next_url = None, reason = None, attempt = None,
            error = Some ''page not found'' \<rparr>])"
proof -
  let ?r = "\<lparr> url = PStr ''http://quiz/1'', answer = Some (PInt 42), correct = PBool True,
              next_url = Some (PStr ''http://quiz/1''), reason = Some PNone,
              attempt = Some 1, error = None \<rparr>"
  let ?s = "\<lparr> tick = 12, current_url = PStr ''http://quiz/1'', results = [?r, ?r] \<rparr>"
  let ?rs = "[\<lparr> url = PStr ''http://quiz/1'', answer = Some (PInt 42), correct = PBool True,
            next_url = Some (PStr ''http://quiz/2''), reason = Some PNone,
            attempt = Some 1, error = None \<rparr>,
         \<lparr> url = PStr ''http://quiz/2'', answer = None, correct = PBool False,
            next_url = None, reason = None, attempt = None,
            error = Some ''page not found'' \<rparr>]"
  let ?sm = "\<lparr> success = True, summary_results = ?rs, total_time = Some 0,
              summary_error = None \<rparr>"
  have never: "\<forall>fuel. solve_quiz fuel student endless_server ''http://quiz/1'' = None"
    using endless_session by blast
  have rn: "run 2 student endless_server (now endless_server 0) (initial_state ''http://quiz/1'') =
      Some ?s"
    by (rule endless_run)
  have "follows (PStr ''http://quiz/1'') (results ?s)"
    using rn visits_follow_server [where k = 2 and self = student and env = endless_server
        and initial_url = "''http://quiz/1''" and s = ?s]
    by blast
  then have fo: "follows (PStr ''http://quiz/1'') [?r, ?r]" by simp
  have t: "truthy (current_url ?s)" by simp
  have l: "\<not> now endless_server (tick ?s) - now endless_server 0 > max_time"
    by (simp add: endless_server_def quiz_server_def offline_def max_time_def
        MAX_QUIZ_TIME_SECONDS_def)
  have again: "current_url ?s \<in> set (map url (results ?s))" by simp
  have twice: "\<not> distinct (map url (out_results
      (loop_step student endless_server (now endless_server 0) ?s)))"
    using t l again visits_follow_server [where s = ?s and env = endless_server
        and start_time = "now endless_server 0" and self = student]
    by blast
  have ret: "solve_quiz 2 student quiz_server ''http://quiz/1'' = Some ?sm"
    by code_simp
  have pre: "distinct (PStr ''http://quiz/1'' # map get_next_url (butlast (summary_results ?sm)))"
    by (simp add: get_next_url_def)
  have "distinct (map url (summary_results ?sm))"
    using ret pre visits_follow_server [where fuel = 2 and self = student and env = quiz_server
        and initial_url = "''http://quiz/1''" and sm = ?sm]
    by blast
  then have di: "distinct (map url ?rs)" by simp
  show ?thesis using never rn fo twice ret di by blast
qed

text \<open>
  Claim C9 as stated fails at \<open>looping_server\<close>, whose first answer names the page just solved
  as the next one: the session renders and solves that URL twice.
\<close>

theorem visits_counterexample:
  "map_option summary_results (solve_quiz 2 student looping_server ''http://quiz/1'') =
     Some [\<lparr> url = PStr ''http://quiz/1'', answer = Some (PInt 42), correct = PBool True,
              next_url = Some (PStr ''http://quiz/1''), reason = Some PNone,
              attempt = Some 1, error = None \<rparr>,
           \<lparr> url = PStr ''http://quiz/1'', answer = Some (PInt 42), correct = PBool True,
              next_url = Some PNone, reason = Some PNone, attempt = Some 1, error = None \<rparr>]
   \<and> \<not> distinct [PStr ''http://quiz/1'', PStr ''http://quiz/1'']"
  by code_simp

section \<open>Claims about the answer producer\<close>

lemma solve_general_question_raises:
  "solve_general_question env t q = (Inl e, t') \<Longrightarrow>
   llm_solve_question env t (qtext q) None = Inl e \<and> t' = Suc t"
  by (cases "llm_solve_question env t (qtext q) None") (simp_all add: solve_general_question_def)

text \<open>
  Claim C8.  An exception of the path chosen by the kind of the question is caught in
  \<open>solve_question\<close> and the general path is run in its place; an answer of that path is
  returned as it is.  So \<open>solve_question\<close> raises only when the chosen path has raised and the
  language model then fails on the general path, asked the question text without context,
  and the exception that leaves is the one of the language model.
\<close>

theorem kind_failure_falls_back:
  "(dispatch env t question_info = (Inl e, t1)
      \<longrightarrow> solve_question env t question_info = solve_general_question env t1 question_info)
   \<and> (dispatch env t question_info = (Inr answer_value, t1)
      \<longrightarrow> solve_question env t question_info = (Inr answer_value, t1))
   \<and> (solve_question env t question_info = (Inl e, t2)
      \<longrightarrow> (\<exists>e0 t0. dispatch env t question_info = (Inl e0, t0)
            \<and> llm_solve_question env t0 (qtext question_info) None = Inl e \<and> t2 = Suc t0))"
proof (intro conjI impI)
  assume "dispatch env t question_info = (Inl e, t1)"
  then show "solve_question env t question_info = solve_general_question env t1 question_info"
    by (simp add: solve_question_def)
next
  assume "dispatch env t question_info = (Inr answer_value, t1)"
  then show "solve_question env t question_info = (Inr answer_value, t1)"
    by (simp add: solve_question_def)
next
  assume raised: "solve_question env t question_info = (Inl e, t2)"
  obtain res t0 where d: "dispatch env t question_info = (res, t0)"
    by (cases "dispatch env t question_info")
  show "\<exists>e0 t0. dispatch env t question_info = (Inl e0, t0)
            \<and> llm_solve_question env t0 (qtext question_info) None = Inl e \<and> t2 = Suc t0"
  proof (cases res)
    case (Inr a)
    with d raised show ?thesis by (simp add: solve_question_def)
  next
    case (Inl e0)
    with d raised have "solve_general_question env t0 question_info = (Inl e, t2)"
      by (simp add: solve_question_def)
    then have "llm_solve_question env t0 (qtext question_info) None = Inl e \<and> t2 = Suc t0"
      by (rule solve_general_question_raises)
    with d Inl show ?thesis by blast
  qed
qed

text \<open>
  A question of kind \<open>File_download\<close> whose file cannot be downloaded is answered by the
  language model; with the language model out of reach as well, its exception is raised.
\<close>

theorem kind_failure_falls_back_witness:
  "qtype (extract_question_info ''Download http://files/data.csv and add it up'' []) = File_download
   \<and> dispatch model_only 0 (extract_question_info ''Download http://files/data.csv and add it up'' []) =
       (Inl (Exception ''offline''), 1)
   \<and> solve_question model_only 0
        (extract_question_info ''Download http://files/data.csv and add it up'' []) = (Inr (PInt 42), 2)
   \<and> dispatch model_only 0 (extract_question_info ''What is 6 times 7?'' []) = (Inr (PInt 42), 1)
   \<and> solve_question model_only 0 (extract_question_info ''What is 6 times 7?'' []) =
       (Inr (PInt 42), 1)
   \<and> solve_question offline 0
        (extract_question_info ''Download http://files/data.csv and add it up'' []) =
       (Inl (Exception ''offline''), 2)
   \<and> llm_solve_question offline 1 ''Download http://files/data.csv and add it up'' None =
       Inl (Exception ''offline'')"
proof -
  let ?q = "extract_question_info ''Download http://files/data.csv and add it up'' []"
  let ?g = "extract_question_info ''What is 6 times 7?'' []"
  have k: "qtype ?q = File_download" by code_simp
  have d1: "dispatch model_only 0 ?q = (Inl (Exception ''offline''), 1)" by code_simp
  have g1: "solve_general_question model_only 1 ?q = (Inr (PInt 42), 2)" by code_simp
  have r1: "solve_question model_only 0 ?q = (Inr (PInt 42), 2)"
    using d1 g1 kind_failure_falls_back [of model_only 0 ?q "Exception ''offline''" 1] by simp
  have d2: "dispatch model_only 0 ?g = (Inr (PInt 42), 1)" by code_simp
  have r2: "solve_question model_only 0 ?g = (Inr (PInt 42), 1)"
    using d2 kind_failure_falls_back [of model_only 0 ?g _ 1 "PInt 42"] by simp
  have r3: "solve_question offline 0 ?q = (Inl (Exception ''offline''), 2)" by code_simp
  have "\<exists>e0 t0. dispatch offline 0 ?q = (Inl e0, t0)
      \<and> llm_solve_question offline t0 (qtext ?q) None = Inl (Exception ''offline'') \<and> 2 = Suc t0"
    using r3 kind_failure_falls_back [of offline 0 ?q "Exception ''offline''" _ _ 2] by blast
  then have "llm_solve_question offline 1 (qtext ?q) None = Inl (Exception ''offline'')"
    by auto
  then have r4: "llm_solve_question offline 1 ''Download http://files/data.csv and add it up'' None =
       Inl (Exception ''offline'')"
    by (simp add: extract_question_info_def)
  show ?thesis using k d1 r1 d2 r2 r3 r4 by blast
qed

end
